theory Spec2Isabelle
  imports Complex_Main "HOL-Library.AList"
begin

section \<open>Python values, dictionaries and errors\<close>

text \<open>
  The raw items come from \<^verbatim>\<open>response.json()\<close>, so a value is a JSON value as Python
  holds it: \<^verbatim>\<open>None\<close>, a bool, an int, a float, a string, a list or a dict. \<open>PNaN\<close>
  is the float \<^verbatim>\<open>nan\<close> that pandas puts into a cell with no value; \<open>PFloat\<close> is a
  finite float, given by its value. A Python \<^verbatim>\<open>str\<close> is a list of code points; the
  \<open>char\<close>s of a \<open>string\<close> are read as the code points below 256. A dict is an
  association list; a key is looked up with \<open>map_of\<close>.
\<close>

datatype pyval =
    PNone
  | PNaN
  | PBool bool
  | PInt int
  | PFloat real
  | PStr string
  | PList "pyval list"
  | PDict "(string \<times> pyval) list"

type_synonym pydict = "(string \<times> pyval) list"

text \<open>The exceptions that the analysed functions can let escape.\<close>

datatype error =
    KeyError string
  | AttributeError
  | ValueError
  | InvalidIndexError

definition bindE :: "error + 'a \<Rightarrow> ('a \<Rightarrow> error + 'b) \<Rightarrow> error + 'b" where
  "bindE m f = (case m of Inl e \<Rightarrow> Inl e | Inr x \<Rightarrow> f x)"

text \<open>Running \<open>f\<close> over a sequence from left to right, stopping at the first exception.\<close>

fun mapE :: "('a \<Rightarrow> error + 'b) \<Rightarrow> 'a list \<Rightarrow> error + 'b list" where
  "mapE f [] = Inr []"
| "mapE f (x # xs) =
     (case f x of
        Inl e \<Rightarrow> Inl e
      | Inr y \<Rightarrow> (case mapE f xs of Inl e \<Rightarrow> Inl e | Inr ys \<Rightarrow> Inr (y # ys)))"

text \<open>\<^verbatim>\<open>d.get(k, dflt)\<close> on a dict.\<close>

definition dict_get :: "pydict \<Rightarrow> string \<Rightarrow> pyval \<Rightarrow> pyval" where
  "dict_get d k dflt = (case map_of d k of Some v \<Rightarrow> v | None \<Rightarrow> dflt)"

text \<open>
  \<^verbatim>\<open>x.get(k, dflt)\<close> on any value: only a dict has \<^verbatim>\<open>get\<close>, every other value
  raises AttributeError.
\<close>

fun py_get :: "pyval \<Rightarrow> string \<Rightarrow> pyval \<Rightarrow> error + pyval" where
  "py_get (PDict d) k dflt = Inr (dict_get d k dflt)"
| "py_get _ k dflt = Inl AttributeError"

text \<open>Python's truth value of a JSON value.\<close>

fun truthy :: "pyval \<Rightarrow> bool" where
  "truthy PNone = False"
| "truthy PNaN = True"
| "truthy (PBool b) = b"
| "truthy (PInt n) = (n \<noteq> 0)"
| "truthy (PFloat r) = (r \<noteq> 0)"
| "truthy (PStr s) = (s \<noteq> [])"
| "truthy (PList xs) = (xs \<noteq> [])"
| "truthy (PDict d) = (d \<noteq> [])"

text \<open>\<^verbatim>\<open>d[k]\<close> on a dict raises KeyError for a missing key.\<close>

definition dict_item :: "(string \<times> 'v) list \<Rightarrow> string \<Rightarrow> error + 'v" where
  "dict_item d k = (case map_of d k of Some v \<Rightarrow> Inr v | None \<Rightarrow> Inl (KeyError k))"

section \<open>Column types\<close>

text \<open>
  A column of a DataFrame has a type. The JSON values of this program give the types
  \<^verbatim>\<open>object\<close>, \<^verbatim>\<open>bool\<close>, \<^verbatim>\<open>int64\<close>, \<^verbatim>\<open>uint64\<close> and \<^verbatim>\<open>float64\<close>.
\<close>

datatype dtype = Object | Bool | Int64 | UInt64 | Float64

text \<open>
  An int as a float64: rounded to 53 significant bits, to the nearest and to the even one
  of two nearest. Below \<open>2^53\<close> nothing is lost. (An int beyond the range of float64 has
  no conversion, and pandas raises there; the model does not follow that.)
\<close>

function bit_length :: "int \<Rightarrow> nat" where
  "bit_length n = (if n \<le> 0 then 0 else Suc (bit_length (n div 2)))"
  by pat_completeness auto
termination
  by (relation "measure nat") auto

declare bit_length.simps [simp del]

definition float64_of_int :: "int \<Rightarrow> real" where
  "float64_of_int n =
     (let m = \<bar>n\<bar>;
          d = 2 ^ (bit_length m - 53);
          q = m div d;
          r = m mod d;
          q' = (if d < 2 * r \<or> (d = 2 * r \<and> odd q) then q + 1 else q)
      in of_int (if n < 0 then - (q' * d) else q' * d))"

text \<open>
  A value as a float64 column holds it: \<^verbatim>\<open>None\<close> becomes \<^verbatim>\<open>nan\<close> and an int becomes
  a float. The other types hold a value as it is.
\<close>

fun to_float64 :: "pyval \<Rightarrow> pyval" where
  "to_float64 PNone = PNaN"
| "to_float64 (PInt n) = PFloat (float64_of_int n)"
| "to_float64 v = v"

fun cast :: "dtype \<Rightarrow> pyval \<Rightarrow> pyval" where
  "cast Float64 v = to_float64 v"
| "cast d v = v"

text \<open>
  The type that pandas infers for a sequence of Python objects, as \<^verbatim>\<open>Series.apply\<close>
  and the DataFrame constructor do (\<^verbatim>\<open>maybe_convert_objects\<close>). The values are scanned
  from the left; a string, list or dict, and an int outside 64 bits or a negative int
  next to one above the int64 range, end the scan with \<^verbatim>\<open>object\<close>. After a
  \<^verbatim>\<open>None\<close> the range of an int is not looked at any more.
\<close>

record seen =
  saw_null :: bool
  saw_nan :: bool
  saw_bool :: bool
  saw_float :: bool
  saw_int :: bool
  saw_uint :: bool
  saw_sint :: bool
  saw_object :: bool

fun scan :: "seen \<Rightarrow> pyval list \<Rightarrow> seen" where
  "scan s [] = s"
| "scan s (PNone # vs) = scan (s\<lparr>saw_null := True\<rparr>) vs"
| "scan s (PNaN # vs) = scan (s\<lparr>saw_nan := True\<rparr>) vs"
| "scan s (PBool b # vs) = scan (s\<lparr>saw_bool := True\<rparr>) vs"
| "scan s (PFloat r # vs) = scan (s\<lparr>saw_float := True\<rparr>) vs"
| "scan s (PInt n # vs) =
     (if saw_null s then scan (s\<lparr>saw_int := True\<rparr>) vs
      else
        (let s' = s\<lparr>saw_int := True,
                      saw_sint := (saw_sint s \<or> (- (2 ^ 63) \<le> n \<and> n < 0)),
                      saw_uint := (saw_uint s \<or> (2 ^ 63 - 1 < n \<and> n \<le> 2 ^ 64 - 1))\<rparr>
         in if (saw_uint s' \<and> saw_sint s') \<or> 2 ^ 64 - 1 < n \<or> n < - (2 ^ 63)
            then s'\<lparr>saw_object := True\<rparr>
            else scan s' vs))"
| "scan s (v # vs) = s\<lparr>saw_object := True\<rparr>"

definition infer_dtype :: "pyval list \<Rightarrow> dtype" where
  "infer_dtype vs =
     (let s = scan \<lparr>saw_null = False, saw_nan = False, saw_bool = False, saw_float = False,
                      saw_int = False, saw_uint = False, saw_sint = False, saw_object = False\<rparr> vs
      in if saw_object s then Object
         else if saw_bool s
         then (if saw_null s \<or> saw_nan s \<or> saw_float s \<or> saw_int s then Object else Bool)
         else if saw_null s \<or> saw_nan s
         then (if saw_float s \<or> saw_int s \<or> saw_nan s then Float64 else Object)
         else if saw_float s then Float64
         else if saw_int s then (if saw_uint s then UInt64 else Int64)
         else Object)"

text \<open>The sequence as the column of the inferred type holds it.\<close>

definition infer_objects :: "pyval list \<Rightarrow> pyval list" where
  "infer_objects vs = map (cast (infer_dtype vs)) vs"

section \<open>Data frames\<close>

text \<open>
  A DataFrame is its column labels, the type of each column, and its rows; a row pairs
  every column label with the cell of that row. Only the operations the analysis uses are
  modelled.
\<close>

record frame =
  columns :: "string list"
  dtypes :: "(string \<times> dtype) list"
  rows :: "pydict list"

definition dtype_of :: "frame \<Rightarrow> string \<Rightarrow> dtype" where
  "dtype_of df c = (case map_of (dtypes df) c of Some d \<Rightarrow> d | None \<Rightarrow> Object)"

definition cell :: "pydict \<Rightarrow> string \<Rightarrow> pyval" where
  "cell r c = dict_get r c PNaN"

text \<open>One row laid out over the column labels \<open>cs\<close>.\<close>

definition reindex :: "string list \<Rightarrow> pydict \<Rightarrow> pydict" where
  "reindex cs r = map (\<lambda>c. (c, cell r c)) cs"

text \<open>The members of a list in the order of their first appearance.\<close>

primrec first_seen :: "'a list \<Rightarrow> 'a list" where
  "first_seen [] = []"
| "first_seen (x # xs) = x # filter (\<lambda>y. y \<noteq> x) (first_seen xs)"

text \<open>
  \<^verbatim>\<open>pd.DataFrame(items)\<close> for a list of dicts: the columns are the keys of the items,
  an item without a key has \<^verbatim>\<open>nan\<close> in that column, and every column gets the type
  inferred from its cells.
\<close>

definition raw_dtype :: "pydict list \<Rightarrow> string \<Rightarrow> dtype" where
  "raw_dtype items c = infer_dtype (map (\<lambda>i. cell i c) items)"

definition DataFrame :: "pydict list \<Rightarrow> frame" where
  "DataFrame items =
     (let cs = first_seen (concat (map (map fst) items))
      in \<lparr>columns = cs,
          dtypes = map (\<lambda>c. (c, raw_dtype items c)) cs,
          rows = map (\<lambda>i. map (\<lambda>c. (c, cast (raw_dtype items c) (cell i c))) cs) items\<rparr>)"

text \<open>\<^verbatim>\<open>df.empty\<close>: no rows or no columns.\<close>

definition empty_df :: "frame \<Rightarrow> bool" where
  "empty_df df = (rows df = [] \<or> columns df = [])"

text \<open>\<^verbatim>\<open>df[c]\<close> for one label: the column, or KeyError.\<close>

definition getitem :: "frame \<Rightarrow> string \<Rightarrow> error + pyval list" where
  "getitem df c =
     (if c \<in> set (columns df) then Inr (map (\<lambda>r. cell r c) (rows df)) else Inl (KeyError c))"

text \<open>
  \<^verbatim>\<open>df[c] = series\<close> for a series of type \<open>d\<close>: the column is replaced where it exists
  and appended otherwise. The series always comes from a column of the same frame, so it
  has one value per row.
\<close>

definition setitem :: "frame \<Rightarrow> string \<Rightarrow> dtype \<Rightarrow> pyval list \<Rightarrow> frame" where
  "setitem df c d vs =
     \<lparr>columns = (if c \<in> set (columns df) then columns df else columns df @ [c]),
      dtypes = AList.update c d (dtypes df),
      rows = map (\<lambda>(r, v). AList.update c v r) (zip (rows df) vs)\<rparr>"

text \<open>
  \<^verbatim>\<open>df[cs]\<close> for a list of labels. The KeyError of pandas names all labels that are
  not columns; the model keeps the first.
\<close>

definition select :: "frame \<Rightarrow> string list \<Rightarrow> error + frame" where
  "select df cs =
     (case filter (\<lambda>c. c \<notin> set (columns df)) cs of
        [] \<Rightarrow> Inr \<lparr>columns = cs, dtypes = map (\<lambda>c. (c, dtype_of df c)) cs,
                   rows = map (reindex cs) (rows df)\<rparr>
      | c # _ \<Rightarrow> Inl (KeyError c))"

text \<open>
  \<^verbatim>\<open>df[target] = df[source].apply(f)\<close>: the results of \<open>f\<close> become a series of the
  inferred type, so next to numbers a \<^verbatim>\<open>None\<close> becomes \<^verbatim>\<open>nan\<close>, and next to a float
  or a missing value an int becomes a float.
\<close>

definition assign_from ::
  "frame \<Rightarrow> string \<Rightarrow> string \<Rightarrow> (pyval \<Rightarrow> error + pyval) \<Rightarrow> error + frame" where
  "assign_from df target source f =
     bindE (getitem df source) (\<lambda>s.
     bindE (mapE f s) (\<lambda>vs.
     Inr (setitem df target (infer_dtype vs) (infer_objects vs))))"

section \<open>extract\_keyword\_info\<close>

text \<open>The lambdas of lines 120 to 146, one per extracted column.\<close>

definition keyword_of :: "pyval \<Rightarrow> error + pyval" where
  "keyword_of x =
     (case x of PDict d \<Rightarrow> Inr (dict_get d ''keyword'' (PStr ''N/A'')) | _ \<Rightarrow> Inr (PStr ''N/A''))"

definition search_volume_of :: "pyval \<Rightarrow> error + pyval" where
  "search_volume_of x =
     (case x of
        PDict d \<Rightarrow> py_get (dict_get d ''keyword_info'' (PDict [])) ''search_volume'' (PInt 0)
      | _ \<Rightarrow> Inr (PInt 0))"

definition keyword_difficulty_of :: "pyval \<Rightarrow> error + pyval" where
  "keyword_difficulty_of x =
     (case x of
        PDict d \<Rightarrow>
          py_get (dict_get d ''keyword_properties'' (PDict [])) ''keyword_difficulty'' (PInt 0)
      | _ \<Rightarrow> Inr (PInt 0))"

definition cpc_of :: "pyval \<Rightarrow> error + pyval" where
  "cpc_of x =
     (case x of
        PDict d \<Rightarrow>
          bindE (py_get (dict_get d ''keyword_info'' (PDict [])) ''cpc'' PNone) (\<lambda>c.
            if c \<noteq> PNone
            then py_get (dict_get d ''keyword_info'' (PDict [])) ''cpc'' (PInt 0)
            else Inr (PInt 0))
      | _ \<Rightarrow> Inr (PInt 0))"

definition last_updated_time_of :: "pyval \<Rightarrow> error + pyval" where
  "last_updated_time_of x =
     (case x of
        PDict d \<Rightarrow>
          py_get (dict_get d ''keyword_info'' (PDict [])) ''last_updated_time'' (PStr ''N/A'')
      | _ \<Rightarrow> Inr (PStr ''N/A''))"

definition position_of :: "pyval \<Rightarrow> error + pyval" where
  "position_of x =
     (case x of
        PDict d \<Rightarrow>
          if truthy (dict_get d ''avg_backlinks_info'' PNone)
          then py_get (dict_get d ''avg_backlinks_info'' (PDict [])) ''rank'' (PInt 0)
          else Inr (PInt 0)
      | _ \<Rightarrow> Inr (PInt 0))"

definition traffic_of :: "pyval \<Rightarrow> error + pyval" where
  "traffic_of x =
     (case x of
        PDict d \<Rightarrow>
          if truthy (dict_get d ''serp_item'' PNone)
          then py_get (dict_get d ''serp_item'' (PDict [])) ''etv'' (PInt 0)
          else Inr (PInt 0)
      | _ \<Rightarrow> Inr (PInt 0))"

text \<open>The loop of lines 138 to 146 over \<^verbatim>\<open>domain_list\<close>.\<close>

fun domain_columns :: "frame \<Rightarrow> string list \<Rightarrow> error + frame" where
  "domain_columns df [] = Inr df"
| "domain_columns df (domain # ds) =
     (case assign_from df (domain @ ''_Position'') ''keyword_data'' position_of of
        Inl e \<Rightarrow> Inl e
      | Inr df1 \<Rightarrow>
          (case assign_from df1 (domain @ ''_Traffic'') ''ranked_serp_element'' traffic_of of
             Inl e \<Rightarrow> Inl e
           | Inr df2 \<Rightarrow> domain_columns df2 ds))"

definition columns_to_keep :: "string list \<Rightarrow> string list" where
  "columns_to_keep domain_list =
     [''keyword'', ''search_volume'', ''Keyword_Difficulty'', ''CPC'', ''last_updated_time'']
     @ map (\<lambda>domain. domain @ ''_Position'') domain_list
     @ map (\<lambda>domain. domain @ ''_Traffic'') domain_list"

definition extract_keyword_info :: "frame \<Rightarrow> string list \<Rightarrow> error + frame" where
  "extract_keyword_info df domain_list =
     (if empty_df df then Inr (DataFrame [])
      else
        bindE (assign_from df ''keyword'' ''keyword_data'' keyword_of) (\<lambda>df1.
        bindE (assign_from df1 ''search_volume'' ''keyword_data'' search_volume_of) (\<lambda>df2.
        bindE (assign_from df2 ''Keyword_Difficulty'' ''keyword_data'' keyword_difficulty_of) (\<lambda>df3.
        bindE (assign_from df3 ''CPC'' ''keyword_data'' cpc_of) (\<lambda>df4.
        bindE (assign_from df4 ''last_updated_time'' ''keyword_data'' last_updated_time_of) (\<lambda>df5.
        bindE (domain_columns df5 domain_list) (\<lambda>df6.
        select df6 (columns_to_keep domain_list))))))))"

section \<open>Keyword normalisation\<close>

text \<open>
  \<^verbatim>\<open>str.lower\<close> and \<^verbatim>\<open>str.strip\<close> on code points below 256: the upper-case letters
  are A to Z and U+00C0 to U+00DE without the multiplication sign U+00D7, each 32 below
  its lower-case letter; the white space is U+0009 to U+000D, U+001C to U+0020, U+0085
  and U+00A0.
\<close>

definition lower_char :: "char \<Rightarrow> char" where
  "lower_char c =
     (let n = (of_char c :: nat)
      in if (65 \<le> n \<and> n \<le> 90) \<or> (192 \<le> n \<and> n \<le> 222 \<and> n \<noteq> 215)
         then char_of (n + 32) else c)"

definition is_space :: "char \<Rightarrow> bool" where
  "is_space c =
     ((of_char c :: nat) \<in> set [9, 10, 11, 12, 13, 28, 29, 30, 31, 32, 133, 160])"

definition str_lower :: "string \<Rightarrow> string" where
  "str_lower s = map lower_char s"

definition str_strip :: "string \<Rightarrow> string" where
  "str_strip s = rev (dropWhile is_space (rev (dropWhile is_space s)))"

text \<open>
  One cell under \<^verbatim>\<open>.str.lower().str.strip()\<close>: a string is lowered and stripped, a
  missing value stays missing, and any other value has no string methods and becomes
  \<^verbatim>\<open>nan\<close>.
\<close>

fun str_lower_strip :: "pyval \<Rightarrow> pyval" where
  "str_lower_strip (PStr s) = PStr (str_strip (str_lower s))"
| "str_lower_strip PNone = PNone"
| "str_lower_strip _ = PNaN"

text \<open>
  \<^verbatim>\<open>df['keyword'] = df['keyword'].str.lower().str.strip()\<close>. The accessor
  \<^verbatim>\<open>.str\<close> is refused with AttributeError on a column of a numeric type or of type
  bool. On an object column that holds no string at all pandas can refuse it too; the
  model returns the frame there, so every run that the code completes is a completed run
  of the model.
\<close>

definition normalise_keyword :: "frame \<Rightarrow> error + frame" where
  "normalise_keyword df =
     bindE (getitem df ''keyword'') (\<lambda>s.
       if dtype_of df ''keyword'' = Object
       then Inr (setitem df ''keyword'' Object (map str_lower_strip s))
       else Inl AttributeError)"

section \<open>content\_gap\_analysis\<close>

text \<open>
  \<^verbatim>\<open>get_keywords\<close> calls the provider over HTTP; the analysis takes it as a function
  from the domain to the items returned for it, each item a dict. A domain that is asked
  twice gets the same items.
\<close>

type_synonym datasets = "(string \<times> frame) list"

type_synonym matrix = "(string \<times> (string \<times> nat) list) list"

record result =
  all_keywords_df :: frame
  common_keywords_df :: frame
  common_keywords_matrix :: matrix

text \<open>\<^verbatim>\<open>s.isin(values)\<close> and the selection of rows by a boolean mask.\<close>

definition isin :: "pyval list \<Rightarrow> pyval list \<Rightarrow> bool list" where
  "isin s vals = map (\<lambda>v. v \<in> set vals) s"

definition mask_rows :: "frame \<Rightarrow> bool list \<Rightarrow> frame" where
  "mask_rows df m =
     \<lparr>columns = columns df, dtypes = dtypes df,
      rows = map fst (filter snd (zip (rows df) m))\<rparr>"

text \<open>The columns handed to \<^verbatim>\<open>tabulate\<close> for one domain; selecting them can raise.\<close>

definition display_columns :: "string \<Rightarrow> string list" where
  "display_columns domain =
     [''keyword'', ''search_volume'', ''Keyword_Difficulty'', ''CPC'', ''last_updated_time'',
      domain @ ''_Position'', domain @ ''_Traffic'']"

text \<open>Lines 196 to 209: one competitor that returned data.\<close>

definition competitor_step ::
  "string list \<Rightarrow> frame \<Rightarrow> string \<Rightarrow> frame \<Rightarrow> error + frame \<times> frame" where
  "competitor_step competitors my_keywords_df competitor competitor_df =
     bindE (extract_keyword_info competitor_df competitors) (\<lambda>df1.
     bindE (select df1 (display_columns competitor)) (\<lambda>shown.
     bindE (normalise_keyword df1) (\<lambda>df2.
     bindE (getitem my_keywords_df ''keyword'') (\<lambda>mine.
     bindE (getitem df2 ''keyword'') (\<lambda>theirs.
     Inr (df2, mask_rows my_keywords_df (isin mine theirs)))))))"

text \<open>
  The loop of lines 191 to 211. The two dicts keep their insertion order, and a key that is
  assigned again keeps its place.
\<close>

fun competitor_loop ::
  "(string \<Rightarrow> pydict list) \<Rightarrow> string list \<Rightarrow> frame \<Rightarrow> string list \<Rightarrow>
   datasets \<times> datasets \<Rightarrow> error + datasets \<times> datasets" where
  "competitor_loop get_keywords competitors my_keywords_df [] acc = Inr acc"
| "competitor_loop get_keywords competitors my_keywords_df (competitor # rest) acc =
     (let competitor_df = DataFrame (get_keywords competitor)
      in if \<not> empty_df competitor_df
         then (case competitor_step competitors my_keywords_df competitor competitor_df of
                 Inl e \<Rightarrow> Inl e
               | Inr (df, common) \<Rightarrow>
                   competitor_loop get_keywords competitors my_keywords_df rest
                     (AList.update competitor df (fst acc),
                      AList.update competitor common (snd acc)))
         else competitor_loop get_keywords competitors my_keywords_df rest acc)"

text \<open>
  Lines 167 to 211: the primary dataset and the two dicts, or \<^verbatim>\<open>None\<close> when the primary
  domain has no data.
\<close>

definition gather_keywords ::
  "(string \<Rightarrow> pydict list) \<Rightarrow> string list \<Rightarrow> string \<Rightarrow>
   error + (frame \<times> datasets \<times> datasets) option" where
  "gather_keywords get_keywords competitors my_domain =
     (let my_raw = DataFrame (get_keywords my_domain)
      in if empty_df my_raw then Inr None
         else
           bindE (extract_keyword_info my_raw [my_domain]) (\<lambda>df1.
           bindE (normalise_keyword df1) (\<lambda>my_keywords_df.
           bindE (select my_keywords_df (display_columns my_domain)) (\<lambda>shown.
           bindE (competitor_loop get_keywords competitors my_keywords_df competitors
                    ([(my_domain, my_keywords_df)], [])) (\<lambda>(all_keywords, common_keywords).
           Inr (Some (my_keywords_df, all_keywords, common_keywords)))))))"

text \<open>
  Lines 220 to 226. A Python set is a list without repetitions; \<^verbatim>\<open>len\<close> of the
  intersection counts the members of the first set that are in the second. Cells are
  compared as values; the one \<^verbatim>\<open>nan\<close> object that pandas writes is a member like any
  other.
\<close>

definition py_set :: "pyval list \<Rightarrow> pyval list" where
  "py_set xs = remdups xs"

definition intersection :: "pyval list \<Rightarrow> pyval list \<Rightarrow> pyval list" where
  "intersection s t = filter (\<lambda>x. x \<in> set t) s"

definition common_count :: "datasets \<Rightarrow> string \<Rightarrow> string \<Rightarrow> error + nat" where
  "common_count all_keywords domain1 domain2 =
     (if domain1 = domain2
      then bindE (dict_item all_keywords domain1) (\<lambda>df. Inr (length (rows df)))
      else
        bindE (dict_item all_keywords domain1) (\<lambda>df1.
        bindE (getitem df1 ''keyword'') (\<lambda>k1.
        bindE (dict_item all_keywords domain2) (\<lambda>df2.
        bindE (getitem df2 ''keyword'') (\<lambda>k2.
        Inr (length (intersection (py_set k1) (py_set k2))))))))"

text \<open>The nested loops of lines 218 to 228, row by row.\<close>

definition build_matrix :: "datasets \<Rightarrow> string list \<Rightarrow> error + matrix" where
  "build_matrix all_keywords domain_names =
     mapE (\<lambda>domain1.
       bindE (mapE (\<lambda>domain2.
                bindE (common_count all_keywords domain1 domain2) (\<lambda>n. Inr (domain2, n)))
              domain_names)
         (\<lambda>row. Inr (domain1, row)))
       domain_names"

text \<open>\<^verbatim>\<open>M.at[a, b]\<close> of the finished matrix.\<close>

definition matrix_at :: "matrix \<Rightarrow> string \<Rightarrow> string \<Rightarrow> nat option" where
  "matrix_at m a b = (case map_of m a of None \<Rightarrow> None | Some row \<Rightarrow> map_of row b)"

text \<open>
  \<^verbatim>\<open>pd.concat(frames, ignore_index=True)\<close>: nothing to concatenate is a ValueError;
  frames with the same columns are stacked; otherwise the columns are united in order of
  first appearance, which pandas refuses for a frame with a repeated column label. A
  column of the result has the common type of the frames that have it, widened to hold
  \<^verbatim>\<open>nan\<close> when a frame lacks it: ints next to floats, and ints next to a missing
  column, become float64; a bool column next to numbers or a missing column becomes
  object. Cells of another type are converted, and the cells of a missing column are
  \<^verbatim>\<open>nan\<close>. (pandas 2 leaves a piece whose cells are all missing out of the choice of
  the type, which can turn a column of \<^verbatim>\<open>None\<close> into \<^verbatim>\<open>nan\<close> where the model keeps
  it; no statement below depends on the choice.)
\<close>

definition common_dtype :: "dtype list \<Rightarrow> dtype" where
  "common_dtype ds =
     (if list_all (\<lambda>d. d = hd ds) ds then hd ds
      else if Object \<in> set ds then Object
      else if Bool \<in> set ds then Object
      else Float64)"

fun hold_na :: "dtype \<Rightarrow> dtype" where
  "hold_na Int64 = Float64"
| "hold_na UInt64 = Float64"
| "hold_na Bool = Object"
| "hold_na d = d"

definition concat_dtype :: "frame list \<Rightarrow> string \<Rightarrow> dtype" where
  "concat_dtype dfs c =
     (let present = filter (\<lambda>df. c \<in> set (columns df)) dfs;
          d = common_dtype (map (\<lambda>df. dtype_of df c) present)
      in if length present < length dfs then hold_na d else d)"

definition concat_cell :: "dtype \<Rightarrow> frame \<Rightarrow> pydict \<Rightarrow> string \<Rightarrow> pyval" where
  "concat_cell d df r c =
     (if c \<in> set (columns df)
      then (if dtype_of df c = d then cell r c else cast d (cell r c))
      else PNaN)"

definition concat_frames :: "string list \<Rightarrow> frame list \<Rightarrow> frame" where
  "concat_frames cs dfs =
     \<lparr>columns = cs,
      dtypes = map (\<lambda>c. (c, concat_dtype dfs c)) cs,
      rows = concat (map (\<lambda>df.
               map (\<lambda>r. map (\<lambda>c. (c, concat_cell (concat_dtype dfs c) df r c)) cs) (rows df))
             dfs)\<rparr>"

definition pd_concat :: "frame list \<Rightarrow> error + frame" where
  "pd_concat dfs =
     (if dfs = [] then Inl ValueError
      else if list_all (\<lambda>df. columns df = columns (hd dfs)) dfs
      then Inr (concat_frames (columns (hd dfs)) dfs)
      else if list_ex (\<lambda>df. \<not> distinct (columns df)) dfs then Inl InvalidIndexError
      else Inr (concat_frames (first_seen (concat (map columns dfs))) dfs))"

text \<open>The whole function: \<open>Inr None\<close> is the return of \<^verbatim>\<open>None\<close> at line 173.\<close>

definition content_gap_analysis ::
  "(string \<Rightarrow> pydict list) \<Rightarrow> string list \<Rightarrow> string \<Rightarrow> error + result option" where
  "content_gap_analysis get_keywords competitors my_domain =
     bindE (gather_keywords get_keywords competitors my_domain) (\<lambda>g.
       case g of
         None \<Rightarrow> Inr None
       | Some (my_keywords_df, all_keywords, common_keywords) \<Rightarrow>
           bindE (build_matrix all_keywords (my_domain # competitors)) (\<lambda>m.
           bindE (pd_concat (map snd all_keywords)) (\<lambda>all_df.
           bindE (pd_concat (map snd common_keywords)) (\<lambda>common_df.
           Inr (Some \<lparr>all_keywords_df = all_df, common_keywords_df = common_df,
                       common_keywords_matrix = m\<rparr>)))))"

section \<open>Notions used in the statements\<close>

text \<open>The cells of one column, from top to bottom.\<close>

definition col :: "frame \<Rightarrow> string \<Rightarrow> pyval list" where
  "col df c = map (\<lambda>r. cell r c) (rows df)"

text \<open>
  The keyword that line 120 reads from a raw item, and the keyword of its record after
  lines 178 and 203.
\<close>

definition raw_keyword :: "pydict \<Rightarrow> pyval" where
  "raw_keyword item =
     (case cell item ''keyword_data'' of
        PDict d \<Rightarrow> dict_get d ''keyword'' (PStr ''N/A'')
      | _ \<Rightarrow> PStr ''N/A'')"

definition normalised_keyword :: "pydict \<Rightarrow> pyval" where
  "normalised_keyword item = str_lower_strip (raw_keyword item)"

text \<open>
  A raw item has no keyword to extract when its \<^verbatim>\<open>keyword_data\<close> is missing or not a
  dict, or is a dict without the key \<^verbatim>\<open>keyword\<close>.
\<close>

definition lacks_keyword :: "pydict \<Rightarrow> bool" where
  "lacks_keyword item =
     (case cell item ''keyword_data'' of
        PDict d \<Rightarrow> map_of d ''keyword'' = None
      | _ \<Rightarrow> True)"

text \<open>Every row of the frame carries exactly the frame's column labels, in their order.\<close>

definition aligned :: "frame \<Rightarrow> bool" where
  "aligned df = list_all (\<lambda>r. map fst r = columns df) (rows df)"

text \<open>The labels that the loop over \<^verbatim>\<open>domain_list\<close> assigns.\<close>

definition domain_labels :: "string list \<Rightarrow> string set" where
  "domain_labels ds = (\<lambda>d. d @ ''_Position'') ` set ds \<union> (\<lambda>d. d @ ''_Traffic'') ` set ds"

text \<open>Some item of the batch has the key, so the raw frame has the column.\<close>

definition has_column :: "pydict list \<Rightarrow> string \<Rightarrow> bool" where
  "has_column items c = list_ex (\<lambda>i. c \<in> fst ` set i) items"

text \<open>
  A record of a frame as the mapping from column label to cell, \<^verbatim>\<open>nan\<close> where the record
  has no such column.
\<close>

definition records :: "frame \<Rightarrow> (string \<Rightarrow> pyval) list" where
  "records df = map cell (rows df)"

text \<open>
  The dataset of one domain: the extraction from its raw items, followed by the
  normalisation of the keyword column (lines 177 and 178, lines 196 and 203).
\<close>

definition dataset_of :: "pydict list \<Rightarrow> string list \<Rightarrow> error + frame" where
  "dataset_of items domain_list =
     bindE (extract_keyword_info (DataFrame items) domain_list) normalise_keyword"

text \<open>
  A cell \<open>v\<close> of a dataset and the cell \<open>v'\<close> that a frame built from the dataset holds
  for it: the same value, or its float64 form where the column became float64.
\<close>

definition kept_or_float64 :: "pyval \<Rightarrow> pyval \<Rightarrow> bool" where
  "kept_or_float64 v v' = (v' = v \<or> v' = to_float64 v)"

text \<open>A column with its type, and a column that holds the results of a lambda.\<close>

definition tcol :: "frame \<Rightarrow> string \<Rightarrow> dtype \<times> pyval list" where
  "tcol df c = (dtype_of df c, col df c)"

definition applied :: "(pyval \<Rightarrow> error + pyval) \<Rightarrow> pyval list \<Rightarrow> dtype \<times> pyval list \<Rightarrow> bool" where
  "applied f xs tc =
     (case mapE f xs of Inl e \<Rightarrow> False | Inr vs \<Rightarrow> tc = (infer_dtype vs, infer_objects vs))"

section \<open>Concrete inputs\<close>

text \<open>
  An item shaped as the response contract describes it, with a null \<^verbatim>\<open>cpc\<close> and with
  the two optional members \<^verbatim>\<open>avg_backlinks_info\<close> and \<^verbatim>\<open>ranked_serp_element\<close>
  absent.
\<close>

definition contract_item :: pydict where
  "contract_item =
     [(''keyword_data'',
         PDict [(''keyword'', PStr ''shoes''),
                (''keyword_info'',
                   PDict [(''search_volume'', PInt 10), (''cpc'', PNone),
                          (''last_updated_time'', PStr ''2024-05-01'')]),
                (''keyword_properties'', PDict [(''keyword_difficulty'', PInt 40)])])]"

text \<open>
  An item as the provider sends it, with \<^verbatim>\<open>avg_backlinks_info\<close> inside
  \<^verbatim>\<open>keyword_data\<close>; an item whose rank is null; and the frame extracted from the batch
  of the two for two domains. Next to the null the rank 7 is stored as the float 7.0.
\<close>

definition provider_item :: pydict where
  "provider_item =
     [(''keyword_data'',
         PDict [(''keyword'', PStr ''shoes''),
                (''keyword_info'',
                   PDict [(''search_volume'', PInt 10), (''cpc'', PInt 2),
                          (''last_updated_time'', PStr ''2024-05-01'')]),
                (''keyword_properties'', PDict [(''keyword_difficulty'', PInt 40)]),
                (''avg_backlinks_info'', PDict [(''rank'', PInt 7)])]),
      (''ranked_serp_element'', PDict [(''serp_item'', PDict [(''etv'', PInt 12)])])]"

definition unranked_item :: pydict where
  "unranked_item =
     [(''keyword_data'',
         PDict [(''keyword'', PStr ''socks''),
                (''avg_backlinks_info'', PDict [(''rank'', PNone)])]),
      (''ranked_serp_element'', PDict [(''serp_item'', PDict [(''etv'', PFloat 1.5)])])]"

definition provider_frame :: frame where
  "provider_frame =
     \<lparr>columns =
        [''keyword'', ''search_volume'', ''Keyword_Difficulty'', ''CPC'', ''last_updated_time'',
         ''a.com_Position'', ''b.com_Position'', ''a.com_Traffic'', ''b.com_Traffic''],
      dtypes =
        [(''keyword'', Object), (''search_volume'', Int64), (''Keyword_Difficulty'', Int64),
         (''CPC'', Int64), (''last_updated_time'', Object), (''a.com_Position'', Float64),
         (''b.com_Position'', Float64), (''a.com_Traffic'', Float64),
         (''b.com_Traffic'', Float64)],
      rows =
        [[(''keyword'', PStr ''shoes''), (''search_volume'', PInt 10),
          (''Keyword_Difficulty'', PInt 40), (''CPC'', PInt 2),
          (''last_updated_time'', PStr ''2024-05-01''),
          (''a.com_Position'', PFloat 7), (''b.com_Position'', PFloat 7),
          (''a.com_Traffic'', PFloat 12), (''b.com_Traffic'', PFloat 12)],
         [(''keyword'', PStr ''socks''), (''search_volume'', PInt 0),
          (''Keyword_Difficulty'', PInt 0), (''CPC'', PInt 0),
          (''last_updated_time'', PStr ''N/A''),
          (''a.com_Position'', PNaN), (''b.com_Position'', PNaN),
          (''a.com_Traffic'', PFloat 1.5), (''b.com_Traffic'', PFloat 1.5)]]\<rparr>"

text \<open>
  The scenario of two domains: the shop has three items with two distinct keywords after
  normalisation, the rival has two items, and every other domain has none.
\<close>

definition kw_item :: "string \<Rightarrow> pydict" where
  "kw_item k =
     [(''keyword_data'', PDict [(''keyword'', PStr k)]),
      (''ranked_serp_element'', PDict [(''serp_item'', PDict [(''etv'', PInt 3)])])]"

definition scenario_fetch :: "string \<Rightarrow> pydict list" where
  "scenario_fetch d =
     (if d = ''shop.example''
      then [kw_item ''running shoes'', kw_item ''Running Shoes '', kw_item ''trail socks'']
      else if d = ''rival.example''
      then [kw_item ''running shoes'', kw_item ''marathon gear'']
      else [])"

text \<open>
  The records of the results. A record of the shop's dataset has the five keyword columns
  and the two columns of the shop; in \<^verbatim>\<open>all_keywords_df\<close> every record has the columns
  of the shop and of the competitors, those columns are float64, and the columns of the
  other datasets are \<^verbatim>\<open>nan\<close>.
\<close>

definition keyword_cells :: "string \<Rightarrow> pydict" where
  "keyword_cells k =
     [(''keyword'', PStr k), (''search_volume'', PInt 0), (''Keyword_Difficulty'', PInt 0),
      (''CPC'', PInt 0), (''last_updated_time'', PStr ''N/A'')]"

definition keyword_dtypes :: "(string \<times> dtype) list" where
  "keyword_dtypes =
     [(''keyword'', Object), (''search_volume'', Int64), (''Keyword_Difficulty'', Int64),
      (''CPC'', Int64), (''last_updated_time'', Object)]"

definition shop_columns :: "string list" where
  "shop_columns =
     [''keyword'', ''search_volume'', ''Keyword_Difficulty'', ''CPC'', ''last_updated_time'',
      ''shop.example_Position'', ''shop.example_Traffic'']"

definition shop_dtypes :: "(string \<times> dtype) list" where
  "shop_dtypes =
     keyword_dtypes @ [(''shop.example_Position'', Int64), (''shop.example_Traffic'', Int64)]"

definition shop_record :: "string \<Rightarrow> pyval \<Rightarrow> pyval \<Rightarrow> pydict" where
  "shop_record k rank etv =
     keyword_cells k @ [(''shop.example_Position'', rank), (''shop.example_Traffic'', etv)]"

definition competitor_columns :: "string list \<Rightarrow> string list" where
  "competitor_columns cs = map (\<lambda>c. c @ ''_Position'') cs @ map (\<lambda>c. c @ ''_Traffic'') cs"

definition all_columns :: "string list \<Rightarrow> string list" where
  "all_columns cs = shop_columns @ competitor_columns cs"

definition all_dtypes :: "string list \<Rightarrow> (string \<times> dtype) list" where
  "all_dtypes cs =
     keyword_dtypes
     @ map (\<lambda>c. (c, Float64))
         ([''shop.example_Position'', ''shop.example_Traffic''] @ competitor_columns cs)"

definition shop_in_all :: "string list \<Rightarrow> string \<Rightarrow> pyval \<Rightarrow> pyval \<Rightarrow> pydict" where
  "shop_in_all cs k rank etv =
     shop_record k rank etv @ map (\<lambda>c. (c, PNaN)) (competitor_columns cs)"

definition competitor_in_all :: "string list \<Rightarrow> string \<Rightarrow> real \<Rightarrow> pydict" where
  "competitor_in_all cs k etv =
     keyword_cells k
     @ [(''shop.example_Position'', PNaN), (''shop.example_Traffic'', PNaN)]
     @ map (\<lambda>c. (c @ ''_Position'', PFloat 0)) cs
     @ map (\<lambda>c. (c @ ''_Traffic'', PFloat etv)) cs"

definition scenario_result :: result where
  "scenario_result =
     \<lparr>all_keywords_df =
        \<lparr>columns = all_columns [''rival.example''],
         dtypes = all_dtypes [''rival.example''],
         rows = [shop_in_all [''rival.example''] ''running shoes'' (PFloat 0) (PFloat 3),
                 shop_in_all [''rival.example''] ''running shoes'' (PFloat 0) (PFloat 3),
                 shop_in_all [''rival.example''] ''trail socks'' (PFloat 0) (PFloat 3),
                 competitor_in_all [''rival.example''] ''running shoes'' 3,
                 competitor_in_all [''rival.example''] ''marathon gear'' 3]\<rparr>,
      common_keywords_df =
        \<lparr>columns = shop_columns, dtypes = shop_dtypes,
         rows = [shop_record ''running shoes'' (PInt 0) (PInt 3),
                 shop_record ''running shoes'' (PInt 0) (PInt 3)]\<rparr>,
      common_keywords_matrix =
        [(''shop.example'', [(''shop.example'', 3), (''rival.example'', 1)]),
         (''rival.example'', [(''shop.example'', 1), (''rival.example'', 2)])]\<rparr>"

text \<open>Two domains that each have an item without a keyword.\<close>

definition gappy_fetch :: "string \<Rightarrow> pydict list" where
  "gappy_fetch d =
     (if d = ''shop.example''
      then [kw_item ''trail socks'', [(''ranked_serp_element'', PNone)]]
      else if d = ''rival.example''
      then [[(''keyword_data'', PDict []), (''ranked_serp_element'', PNone)]]
      else [])"

definition gappy_result :: result where
  "gappy_result =
     \<lparr>all_keywords_df =
        \<lparr>columns = all_columns [''rival.example''],
         dtypes = all_dtypes [''rival.example''],
         rows = [shop_in_all [''rival.example''] ''trail socks'' (PFloat 0) (PFloat 3),
                 shop_in_all [''rival.example''] ''n/a'' (PFloat 0) (PFloat 0),
                 competitor_in_all [''rival.example''] ''n/a'' 0]\<rparr>,
      common_keywords_df =
        \<lparr>columns = shop_columns, dtypes = shop_dtypes,
         rows = [shop_record ''n/a'' (PInt 0) (PInt 0)]\<rparr>,
      common_keywords_matrix =
        [(''shop.example'', [(''shop.example'', 2), (''rival.example'', 1)]),
         (''rival.example'', [(''shop.example'', 1), (''rival.example'', 1)])]\<rparr>"

text \<open>
  Three domains, the competitors named in the order rival, outlet: the shop shares
  "running shoes" with the rival and "trail socks" with the outlet.
\<close>

definition trio_fetch :: "string \<Rightarrow> pydict list" where
  "trio_fetch d =
     (if d = ''shop.example'' then [kw_item ''running shoes'', kw_item ''trail socks'']
      else if d = ''rival.example'' then [kw_item ''running shoes'']
      else if d = ''outlet.example'' then [kw_item ''trail socks'', kw_item ''rain jackets'']
      else [])"

definition trio_result :: result where
  "trio_result =
     \<lparr>all_keywords_df =
        \<lparr>columns = all_columns [''rival.example'', ''outlet.example''],
         dtypes = all_dtypes [''rival.example'', ''outlet.example''],
         rows =
           [shop_in_all [''rival.example'', ''outlet.example''] ''running shoes''
              (PFloat 0) (PFloat 3),
            shop_in_all [''rival.example'', ''outlet.example''] ''trail socks''
              (PFloat 0) (PFloat 3),
            competitor_in_all [''rival.example'', ''outlet.example''] ''running shoes'' 3,
            competitor_in_all [''rival.example'', ''outlet.example''] ''trail socks'' 3,
            competitor_in_all [''rival.example'', ''outlet.example''] ''rain jackets'' 3]\<rparr>,
      common_keywords_df =
        \<lparr>columns = shop_columns, dtypes = shop_dtypes,
         rows = [shop_record ''running shoes'' (PInt 0) (PInt 3),
                 shop_record ''trail socks'' (PInt 0) (PInt 3)]\<rparr>,
      common_keywords_matrix =
        [(''shop.example'',
            [(''shop.example'', 2), (''rival.example'', 1), (''outlet.example'', 1)]),
         (''rival.example'',
            [(''shop.example'', 1), (''rival.example'', 1), (''outlet.example'', 0)]),
         (''outlet.example'',
            [(''shop.example'', 1), (''rival.example'', 0), (''outlet.example'', 2)])]\<rparr>"

text \<open>
  A shop whose one item has the rank \<open>2^53 + 1\<close>, which is not a float64, and the rival
  with one item of the same keyword.
\<close>

definition ranked_item :: "string \<Rightarrow> pyval \<Rightarrow> pydict" where
  "ranked_item k rank =
     [(''keyword_data'',
         PDict [(''keyword'', PStr k), (''avg_backlinks_info'', PDict [(''rank'', rank)])]),
      (''ranked_serp_element'', PDict [(''serp_item'', PDict [(''etv'', PInt 3)])])]"

definition big_fetch :: "string \<Rightarrow> pydict list" where
  "big_fetch d =
     (if d = ''shop.example'' then [ranked_item ''running shoes'' (PInt 9007199254740993)]
      else if d = ''rival.example'' then [kw_item ''running shoes'']
      else [])"

definition big_shop :: frame where
  "big_shop =
     \<lparr>columns = shop_columns, dtypes = shop_dtypes,
      rows = [shop_record ''running shoes'' (PInt 9007199254740993) (PInt 3)]\<rparr>"

definition big_result :: result where
  "big_result =
     \<lparr>all_keywords_df =
        \<lparr>columns = all_columns [''rival.example''],
         dtypes = all_dtypes [''rival.example''],
         rows = [shop_in_all [''rival.example''] ''running shoes''
                   (PFloat 9007199254740992) (PFloat 3),
                 competitor_in_all [''rival.example''] ''running shoes'' 3]\<rparr>,
      common_keywords_df = big_shop,
      common_keywords_matrix =
        [(''shop.example'', [(''shop.example'', 1), (''rival.example'', 1)]),
         (''rival.example'', [(''shop.example'', 1), (''rival.example'', 1)])]\<rparr>"

section \<open>Facts about frames and about the extraction\<close>

lemma bindE_Inr: "bindE m f = Inr y \<longleftrightarrow> (\<exists>x. m = Inr x \<and> f x = Inr y)"
  by (cases m) (simp_all add: bindE_def)

lemma mapE_Inr: "mapE f xs = Inr ys \<longleftrightarrow> list_all2 (\<lambda>x y. f x = Inr y) xs ys"
proof (induction xs arbitrary: ys)
  case Nil
  then show ?case by auto
next
  case (Cons x xs)
  show ?case
    by (cases ys) (auto simp: Cons.IH [symmetric] split: sum.splits)
qed

lemma mapE_length: "mapE f xs = Inr ys \<Longrightarrow> length ys = length xs"
  by (simp add: mapE_Inr list_all2_lengthD)

lemma mapE_total: "mapE (\<lambda>x. Inr (g x)) xs = Inr (map g xs)"
  by (induction xs) simp_all

lemma mapE_unique: "mapE f xs = Inr ys \<Longrightarrow> mapE f xs = Inr zs \<Longrightarrow> ys = zs"
  by simp

lemma cell_update: "cell (AList.update c v r) c' = (if c' = c then v else cell r c')"
  by (simp add: cell_def dict_get_def update_conv')

lemma cell_reindexed: "cell (map (\<lambda>c. (c, g c)) cs) c' = (if c' \<in> set cs then g c' else PNaN)"
  by (induction cs) (auto simp: cell_def dict_get_def)

lemma getitem_Inr: "getitem df c = Inr s \<longleftrightarrow> c \<in> set (columns df) \<and> s = col df c"
  by (auto simp: getitem_def col_def)

lemma col_setitem:
  "length vs = length (rows df) \<Longrightarrow>
   col (setitem df t d vs) c = (if c = t then vs else col df c)"
  by (auto simp: col_def setitem_def cell_update map_zip_map2 zip_map_fst_snd
      intro!: nth_equalityI)

lemma dtype_of_setitem:
  "dtype_of (setitem df t d vs) c = (if c = t then d else dtype_of df c)"
  by (simp add: dtype_of_def setitem_def update_conv')

lemma columns_setitem: "set (columns (setitem df t d vs)) = insert t (set (columns df))"
  by (auto simp: setitem_def)

lemma rows_setitem_length:
  "length vs = length (rows df) \<Longrightarrow> length (rows (setitem df t d vs)) = length (rows df)"
  by (simp add: setitem_def)

lemma length_infer_objects: "length (infer_objects vs) = length vs"
  by (simp add: infer_objects_def)

lemma cast_cases: "cast d v = v \<or> cast d v = to_float64 v"
  by (cases d) simp_all

lemma cast_nan: "cast d PNaN = PNaN"
  by (cases d) simp_all

lemma cast_dict: "cast d (PDict x) = PDict x"
  by (cases d) simp_all

lemma cast_is_dict: "cast d v = PDict x \<longleftrightarrow> v = PDict x"
  by (cases d; cases v) simp_all

lemma kept_or_float64_cast: "kept_or_float64 v (cast d v)"
  using cast_cases [of d v] by (auto simp: kept_or_float64_def)

lemma assign_from_Inr:
  assumes "assign_from df t s f = Inr df'"
  shows "s \<in> set (columns df)"
    and "set (columns df') = insert t (set (columns df))"
    and "length (rows df') = length (rows df)"
    and "applied f (col df s) (tcol df' t)"
    and "c \<noteq> t \<Longrightarrow> col df' c = col df c"
    and "c \<noteq> t \<Longrightarrow> tcol df' c = tcol df c"
proof -
  from assms obtain vs where vs: "s \<in> set (columns df)" "mapE f (col df s) = Inr vs"
    and df': "df' = setitem df t (infer_dtype vs) (infer_objects vs)"
    by (auto simp: assign_from_def bindE_Inr getitem_Inr)
  have len: "length (infer_objects vs) = length (rows df)"
    using mapE_length [OF vs(2)] by (simp add: col_def length_infer_objects)
  show "s \<in> set (columns df)" by (rule vs(1))
  show "set (columns df') = insert t (set (columns df))"
    by (simp add: df' columns_setitem)
  show "length (rows df') = length (rows df)"
    using len by (simp add: df' setitem_def)
  show "applied f (col df s) (tcol df' t)"
    using col_setitem [OF len] by (simp add: applied_def vs(2) tcol_def df' dtype_of_setitem)
  show "c \<noteq> t \<Longrightarrow> col df' c = col df c"
    using col_setitem [OF len] by (simp add: df')
  show "c \<noteq> t \<Longrightarrow> tcol df' c = tcol df c"
    using col_setitem [OF len] by (simp add: df' tcol_def dtype_of_setitem)
qed

lemma cell_reindex: "cell (reindex cs r) c = (if c \<in> set cs then cell r c else PNaN)"
  unfolding reindex_def by (rule cell_reindexed)

lemma keys_reindex: "map fst (reindex cs r) = cs"
  by (simp add: reindex_def comp_def)

lemma select_Inr:
  "select df cs = Inr out \<longleftrightarrow>
     set cs \<subseteq> set (columns df)
     \<and> out = \<lparr>columns = cs, dtypes = map (\<lambda>c. (c, dtype_of df c)) cs,
                 rows = map (reindex cs) (rows df)\<rparr>"
proof (cases "filter (\<lambda>c. c \<notin> set (columns df)) cs")
  case Nil
  then have "set cs \<subseteq> set (columns df)"
    by (auto simp: filter_empty_conv)
  with Nil show ?thesis by (auto simp: select_def)
next
  case (Cons c rest)
  then have "c \<in> set (filter (\<lambda>c. c \<notin> set (columns df)) cs)" by simp
  then have "\<not> set cs \<subseteq> set (columns df)" by auto
  with Cons show ?thesis by (simp add: select_def)
qed

lemma col_select:
  "select df cs = Inr out \<Longrightarrow> c \<in> set cs \<Longrightarrow> col out c = col df c"
  by (simp add: select_Inr col_def cell_reindex)

lemma map_of_tagged: "c \<in> set cs \<Longrightarrow> map_of (map (\<lambda>c. (c, g c)) cs) c = Some (g c)"
  by (induction cs) auto

lemma tcol_select:
  "select df cs = Inr out \<Longrightarrow> c \<in> set cs \<Longrightarrow> tcol out c = tcol df c"
  by (simp add: select_Inr tcol_def col_def cell_reindex dtype_of_def map_of_tagged)

lemma position_label_last: "last (d @ ''_Position'') = CHR ''n''"
  by simp

lemma traffic_label_last: "last (d @ ''_Traffic'') = CHR ''c''"
  by simp

lemma position_not_traffic: "d @ ''_Position'' \<noteq> d' @ ''_Traffic''"
proof
  assume "d @ ''_Position'' = d' @ ''_Traffic''"
  then have "last (d @ ''_Position'') = last (d' @ ''_Traffic'')" by (rule arg_cong)
  then show False by simp
qed

lemma fixed_not_domain_label:
  assumes "c \<in> {''keyword'', ''search_volume'', ''Keyword_Difficulty'', ''CPC'',
                 ''last_updated_time'', ''keyword_data'', ''ranked_serp_element''}"
  shows "c \<noteq> d @ ''_Position''" and "c \<noteq> d @ ''_Traffic''"
proof -
  from assms have l: "last c \<noteq> CHR ''n'' \<and> last c \<noteq> CHR ''c''" by auto
  show "c \<noteq> d @ ''_Position''"
  proof
    assume "c = d @ ''_Position''"
    then have "last c = last (d @ ''_Position'')" by (rule arg_cong)
    with l show False by simp
  qed
  show "c \<noteq> d @ ''_Traffic''"
  proof
    assume "c = d @ ''_Traffic''"
    then have "last c = last (d @ ''_Traffic'')" by (rule arg_cong)
    with l show False by simp
  qed
qed

lemma domain_columns_Inr:
  assumes "domain_columns df ds = Inr df'"
  shows "length (rows df') = length (rows df)
       \<and> set (columns df') = set (columns df) \<union> domain_labels ds
       \<and> (\<forall>c. c \<notin> domain_labels ds \<longrightarrow> col df' c = col df c \<and> tcol df' c = tcol df c)
       \<and> (\<forall>d\<in>set ds. applied position_of (col df ''keyword_data'') (tcol df' (d @ ''_Position''))
             \<and> applied traffic_of (col df ''ranked_serp_element'') (tcol df' (d @ ''_Traffic'')))"
  using assms
proof (induction ds arbitrary: df)
  case Nil
  then show ?case by (simp add: domain_labels_def)
next
  case (Cons d0 ds)
  from Cons.prems obtain df1 df2
    where s1: "assign_from df (d0 @ ''_Position'') ''keyword_data'' position_of = Inr df1"
      and s2: "assign_from df1 (d0 @ ''_Traffic'') ''ranked_serp_element'' traffic_of = Inr df2"
      and s3: "domain_columns df2 ds = Inr df'"
    by (auto split: sum.splits)
  note a1 = assign_from_Inr [OF s1]
  note a2 = assign_from_Inr [OF s2]
  note ih = Cons.IH [OF s3]
  have kd1: "col df1 ''keyword_data'' = col df ''keyword_data''"
    and rs1: "col df1 ''ranked_serp_element'' = col df ''ranked_serp_element''"
    using a1(5) fixed_not_domain_label(1) [of _ d0] by auto
  have kd2: "col df2 ''keyword_data'' = col df ''keyword_data''"
    and rs2: "col df2 ''ranked_serp_element'' = col df ''ranked_serp_element''"
    using a2(5) fixed_not_domain_label(2) [of _ d0] kd1 rs1 by auto
  have pos2: "tcol df2 (d0 @ ''_Position'') = tcol df1 (d0 @ ''_Position'')"
    using a2(6) position_not_traffic by blast
  have len: "length (rows df') = length (rows df)"
    using ih a1(3) a2(3) by simp
  have cols: "set (columns df') = set (columns df) \<union> domain_labels (d0 # ds)"
    using ih a1(2) a2(2) by (auto simp: domain_labels_def)
  have keep: "col df' c = col df c \<and> tcol df' c = tcol df c"
    if "c \<notin> domain_labels (d0 # ds)" for c
  proof -
    from that have "c \<notin> domain_labels ds" "c \<noteq> d0 @ ''_Position''" "c \<noteq> d0 @ ''_Traffic''"
      by (auto simp: domain_labels_def)
    then show ?thesis using ih a1(5,6) a2(5,6) by simp
  qed
  have vals: "applied position_of (col df ''keyword_data'') (tcol df' (d @ ''_Position''))
      \<and> applied traffic_of (col df ''ranked_serp_element'') (tcol df' (d @ ''_Traffic''))"
    if d: "d \<in> set (d0 # ds)" for d
  proof (cases "d \<in> set ds")
    case True
    then show ?thesis using ih kd2 rs2 by simp
  next
    case False
    with d have d0: "d = d0" by simp
    from False have "d0 @ ''_Position'' \<notin> domain_labels ds" "d0 @ ''_Traffic'' \<notin> domain_labels ds"
      using position_not_traffic [of d0] position_not_traffic [of _ d0]
      by (auto simp: domain_labels_def d0)
    then have "tcol df' (d0 @ ''_Position'') = tcol df2 (d0 @ ''_Position'')"
      "tcol df' (d0 @ ''_Traffic'') = tcol df2 (d0 @ ''_Traffic'')"
      using ih by simp_all
    then show ?thesis
      using a1(4) a2(4) pos2 rs1 by (simp add: d0)
  qed
  show ?case using len cols keep vals by blast
qed

lemma set_first_seen: "set (first_seen xs) = set xs"
  by (induction xs) auto

lemma distinct_first_seen: "distinct (first_seen xs)"
  by (induction xs) (auto simp: set_first_seen)

lemma first_seen_distinct: "distinct xs \<Longrightarrow> first_seen xs = xs"
proof (induction xs)
  case Nil
  then show ?case by simp
next
  case (Cons x xs)
  then have "filter (\<lambda>y. y \<noteq> x) xs = xs" by (auto intro: filter_True)
  with Cons show ?case by simp
qed

lemma first_seen_append:
  "first_seen (xs @ ys) = first_seen xs @ filter (\<lambda>y. y \<notin> set xs) (first_seen ys)"
proof (induction xs)
  case Nil
  then show ?case by simp
next
  case (Cons x xs)
  have "filter (\<lambda>y. y \<noteq> x) (filter (\<lambda>y. y \<notin> set xs) (first_seen ys))
      = filter (\<lambda>y. y \<notin> set (x # xs)) (first_seen ys)"
    by (auto intro: filter_cong)
  with Cons show ?case by simp
qed

lemma cell_absent: "c \<notin> fst ` set r \<Longrightarrow> cell r c = PNaN"
proof -
  assume "c \<notin> fst ` set r"
  then have "map_of r c = None" by (simp add: map_of_eq_None_iff)
  then show ?thesis by (simp add: cell_def dict_get_def)
qed

lemma columns_DataFrame: "set (columns (DataFrame items)) = (\<Union>i\<in>set items. fst ` set i)"
  by (auto simp: DataFrame_def Let_def set_first_seen)

lemma rows_DataFrame:
  "rows (DataFrame items)
     = map (\<lambda>i. map (\<lambda>c. (c, cast (raw_dtype items c) (cell i c))) (columns (DataFrame items)))
         items"
  by (simp add: DataFrame_def Let_def)

lemma length_rows_DataFrame: "length (rows (DataFrame items)) = length items"
  by (simp add: rows_DataFrame)

lemma col_DataFrame:
  "col (DataFrame items) c = map (\<lambda>i. cast (raw_dtype items c) (cell i c)) items"
proof -
  let ?cs = "columns (DataFrame items)"
  have "cell (map (\<lambda>c. (c, cast (raw_dtype items c) (cell i c))) ?cs) c
          = cast (raw_dtype items c) (cell i c)"
    if "i \<in> set items" for i
  proof (cases "c \<in> set ?cs")
    case True
    then show ?thesis by (simp add: cell_reindexed)
  next
    case False
    with that have "c \<notin> fst ` set i" by (auto simp: columns_DataFrame)
    then have "cell i c = PNaN" by (rule cell_absent)
    with False show ?thesis by (simp add: cell_reindexed cast_nan)
  qed
  then show ?thesis by (simp add: col_def rows_DataFrame)
qed

lemma mapE_map: "mapE f (map g xs) = mapE (\<lambda>x. f (g x)) xs"
  by (induction xs) (simp_all split: sum.splits)

lemma mapE_cong_on: "(\<And>x. x \<in> set xs \<Longrightarrow> f x = g x) \<Longrightarrow> mapE f xs = mapE g xs"
  by (induction xs) (simp_all split: sum.splits)

text \<open>The lambdas only ask whether the cell is a dict, which the column type does not change.\<close>

lemma lambda_cast:
  "keyword_of (cast d x) = keyword_of x"
  "search_volume_of (cast d x) = search_volume_of x"
  "keyword_difficulty_of (cast d x) = keyword_difficulty_of x"
  "cpc_of (cast d x) = cpc_of x"
  "last_updated_time_of (cast d x) = last_updated_time_of x"
  "position_of (cast d x) = position_of x"
  "traffic_of (cast d x) = traffic_of x"
  by (cases d; cases x;
      simp add: keyword_of_def search_volume_of_def keyword_difficulty_of_def cpc_of_def
        last_updated_time_of_def position_of_def traffic_of_def)+

lemma applied_DataFrame:
  assumes "\<And>x. f (cast (raw_dtype items c) x) = f x"
  shows "applied f (col (DataFrame items) c) tc = applied f (map (\<lambda>i. cell i c) items) tc"
proof -
  have "mapE f (col (DataFrame items) c) = mapE f (map (\<lambda>i. cell i c) items)"
    by (simp add: col_DataFrame mapE_map assms)
  then show ?thesis by (simp add: applied_def)
qed

lemma mapE_total_on:
  assumes "\<And>x. x \<in> set xs \<Longrightarrow> f x = Inr (g x)" and "mapE f xs = Inr ys"
  shows "ys = map g xs"
  using assms
proof (induction xs arbitrary: ys)
  case Nil
  then show ?case by simp
next
  case (Cons x xs)
  then show ?case by (auto split: sum.splits)
qed

lemma keyword_of_total: "keyword_of (cell i ''keyword_data'') = Inr (raw_keyword i)"
  by (simp add: keyword_of_def raw_keyword_def split: pyval.splits)

lemma mapE_keyword_of:
  "mapE keyword_of (map (\<lambda>i. cell i ''keyword_data'') items) = Inr (map raw_keyword items)"
  by (induction items) (simp_all add: keyword_of_total)

lemma aligned_select: "select df cs = Inr out \<Longrightarrow> aligned out"
  by (auto simp: select_Inr aligned_def list_all_iff keys_reindex)

lemma extract_Inr:
  assumes ex: "extract_keyword_info df ds = Inr out" and ne: "\<not> empty_df df"
  shows "columns out = columns_to_keep ds"
    and "aligned out"
    and "length (rows out) = length (rows df)"
    and "''keyword_data'' \<in> set (columns df)"
    and "applied keyword_of (col df ''keyword_data'') (tcol out ''keyword'')"
    and "applied search_volume_of (col df ''keyword_data'') (tcol out ''search_volume'')"
    and "applied keyword_difficulty_of (col df ''keyword_data'') (tcol out ''Keyword_Difficulty'')"
    and "applied cpc_of (col df ''keyword_data'') (tcol out ''CPC'')"
    and "applied last_updated_time_of (col df ''keyword_data'') (tcol out ''last_updated_time'')"
    and "\<And>d. d \<in> set ds \<Longrightarrow>
           applied position_of (col df ''keyword_data'') (tcol out (d @ ''_Position''))"
    and "\<And>d. d \<in> set ds \<Longrightarrow>
           applied traffic_of (col df ''ranked_serp_element'') (tcol out (d @ ''_Traffic''))"
proof -
  from ex ne obtain df1 df2 df3 df4 df5 df6
    where s1: "assign_from df ''keyword'' ''keyword_data'' keyword_of = Inr df1"
      and s2: "assign_from df1 ''search_volume'' ''keyword_data'' search_volume_of = Inr df2"
      and s3: "assign_from df2 ''Keyword_Difficulty'' ''keyword_data'' keyword_difficulty_of = Inr df3"
      and s4: "assign_from df3 ''CPC'' ''keyword_data'' cpc_of = Inr df4"
      and s5: "assign_from df4 ''last_updated_time'' ''keyword_data'' last_updated_time_of = Inr df5"
      and s6: "domain_columns df5 ds = Inr df6"
      and s7: "select df6 (columns_to_keep ds) = Inr out"
    by (auto simp: extract_keyword_info_def bindE_Inr)
  note a1 = assign_from_Inr [OF s1]
  note a2 = assign_from_Inr [OF s2]
  note a3 = assign_from_Inr [OF s3]
  note a4 = assign_from_Inr [OF s4]
  note a5 = assign_from_Inr [OF s5]
  note a6 = domain_columns_Inr [OF s6]
  have fixed: "c \<notin> domain_labels ds"
    if "c \<in> {''keyword'', ''search_volume'', ''Keyword_Difficulty'', ''CPC'',
              ''last_updated_time'', ''keyword_data'', ''ranked_serp_element''}" for c
    using fixed_not_domain_label [OF that] by (auto simp: domain_labels_def)
  have kd1: "col df1 ''keyword_data'' = col df ''keyword_data''" using a1(5) by simp
  have kd2: "col df2 ''keyword_data'' = col df ''keyword_data''" using a2(5) kd1 by simp
  have kd3: "col df3 ''keyword_data'' = col df ''keyword_data''" using a3(5) kd2 by simp
  have kd4: "col df4 ''keyword_data'' = col df ''keyword_data''" using a4(5) kd3 by simp
  have kd5: "col df5 ''keyword_data'' = col df ''keyword_data''" using a5(5) kd4 by simp
  have rs5: "col df5 ''ranked_serp_element'' = col df ''ranked_serp_element''"
    using a1(5) a2(5) a3(5) a4(5) a5(5) by simp
  have k6: "tcol df6 ''keyword'' = tcol df1 ''keyword''"
    using a6 fixed [of "''keyword''"] a2(6) a3(6) a4(6) a5(6) by simp
  have v6: "tcol df6 ''search_volume'' = tcol df2 ''search_volume''"
    using a6 fixed [of "''search_volume''"] a3(6) a4(6) a5(6) by simp
  have d6: "tcol df6 ''Keyword_Difficulty'' = tcol df3 ''Keyword_Difficulty''"
    using a6 fixed [of "''Keyword_Difficulty''"] a4(6) a5(6) by simp
  have c6: "tcol df6 ''CPC'' = tcol df4 ''CPC''"
    using a6 fixed [of "''CPC''"] a5(6) by simp
  have l6: "tcol df6 ''last_updated_time'' = tcol df5 ''last_updated_time''"
    using a6 fixed [of "''last_updated_time''"] by simp
  note sel = tcol_select [OF s7]
  show "columns out = columns_to_keep ds" using s7 by (simp add: select_Inr)
  show "aligned out" using s7 by (rule aligned_select)
  show "length (rows out) = length (rows df)"
    using s7 a6 a1(3) a2(3) a3(3) a4(3) a5(3) by (simp add: select_Inr)
  show "''keyword_data'' \<in> set (columns df)" by (rule a1(1))
  show "applied keyword_of (col df ''keyword_data'') (tcol out ''keyword'')"
    using a1(4) k6 sel [of "''keyword''"] by (simp add: columns_to_keep_def)
  show "applied search_volume_of (col df ''keyword_data'') (tcol out ''search_volume'')"
    using a2(4) kd1 v6 sel [of "''search_volume''"] by (simp add: columns_to_keep_def)
  show "applied keyword_difficulty_of (col df ''keyword_data'') (tcol out ''Keyword_Difficulty'')"
    using a3(4) kd2 d6 sel [of "''Keyword_Difficulty''"] by (simp add: columns_to_keep_def)
  show "applied cpc_of (col df ''keyword_data'') (tcol out ''CPC'')"
    using a4(4) kd3 c6 sel [of "''CPC''"] by (simp add: columns_to_keep_def)
  show "applied last_updated_time_of (col df ''keyword_data'') (tcol out ''last_updated_time'')"
    using a5(4) kd4 l6 sel [of "''last_updated_time''"] by (simp add: columns_to_keep_def)
  show "applied position_of (col df ''keyword_data'') (tcol out (d @ ''_Position''))"
    if "d \<in> set ds" for d
    using that a6 kd5 sel [of "d @ ''_Position''"] by (simp add: columns_to_keep_def)
  show "applied traffic_of (col df ''ranked_serp_element'') (tcol out (d @ ''_Traffic''))"
    if "d \<in> set ds" for d
    using that a6 rs5 sel [of "d @ ''_Traffic''"] by (simp add: columns_to_keep_def)
qed

lemma not_empty_DataFrame: "has_column items c \<Longrightarrow> \<not> empty_df (DataFrame items)"
proof -
  assume "has_column items c"
  then obtain i where i: "i \<in> set items" "c \<in> fst ` set i"
    by (auto simp: has_column_def list_ex_iff)
  then have "c \<in> set (columns (DataFrame items))" by (auto simp: columns_DataFrame)
  moreover from i have "rows (DataFrame items) \<noteq> []" by (auto simp: rows_DataFrame)
  ultimately show ?thesis by (auto simp: empty_df_def)
qed

lemma has_column_iff: "has_column items c \<longleftrightarrow> c \<in> set (columns (DataFrame items))"
  by (auto simp: has_column_def list_ex_iff columns_DataFrame)

lemma cell_row: "n < length (rows df) \<Longrightarrow> cell (rows df ! n) c = col df c ! n"
  by (simp add: col_def)

lemma mapE_nth: "mapE f xs = Inr ys \<Longrightarrow> n < length xs \<Longrightarrow> f (xs ! n) = Inr (ys ! n)"
  by (auto simp: mapE_Inr dest: list_all2_nthD)

lemma applied_nth:
  assumes "applied f xs (d, ys)" and "n < length xs"
  shows "\<exists>v. f (xs ! n) = Inr v \<and> ys ! n = cast d v"
proof -
  from assms(1) obtain vs where vs: "mapE f xs = Inr vs" and d: "d = infer_dtype vs"
    and ys: "ys = infer_objects vs"
    by (auto simp: applied_def split: sum.splits)
  from mapE_length [OF vs] assms(2) have "n < length vs" by simp
  with mapE_nth [OF vs assms(2)] show ?thesis
    by (auto simp: ys d infer_objects_def)
qed

lemma extract_row:
  assumes ex: "extract_keyword_info (DataFrame items) ds = Inr out"
    and ne: "\<not> empty_df (DataFrame items)" and n: "n < length items" and d: "d \<in> set ds"
  shows "\<exists>v. position_of (cell (items ! n) ''keyword_data'') = Inr v
             \<and> kept_or_float64 v (cell (rows out ! n) (d @ ''_Position''))"
    and "\<exists>v. traffic_of (cell (items ! n) ''ranked_serp_element'') = Inr v
             \<and> kept_or_float64 v (cell (rows out ! n) (d @ ''_Traffic''))"
proof -
  note e = extract_Inr [OF ex ne]
  have len: "length (rows out) = length items"
    using e(3) by (simp add: length_rows_DataFrame)
  have row: "cell (rows out ! n) c = col out c ! n" for c
    using n len by (simp add: cell_row)
  have p: "applied position_of (map (\<lambda>i. cell i ''keyword_data'') items)
             (dtype_of out (d @ ''_Position''), col out (d @ ''_Position''))"
    using e(10) [OF d] by (simp add: applied_DataFrame lambda_cast tcol_def)
  have t: "applied traffic_of (map (\<lambda>i. cell i ''ranked_serp_element'') items)
             (dtype_of out (d @ ''_Traffic''), col out (d @ ''_Traffic''))"
    using e(11) [OF d] by (simp add: applied_DataFrame lambda_cast tcol_def)
  from applied_nth [OF p, of n] n obtain v
    where "position_of (cell (items ! n) ''keyword_data'') = Inr v"
      and "col out (d @ ''_Position'') ! n = cast (dtype_of out (d @ ''_Position'')) v"
    by auto
  then show "\<exists>v. position_of (cell (items ! n) ''keyword_data'') = Inr v
             \<and> kept_or_float64 v (cell (rows out ! n) (d @ ''_Position''))"
    by (simp add: row kept_or_float64_cast)
  from applied_nth [OF t, of n] n obtain w
    where "traffic_of (cell (items ! n) ''ranked_serp_element'') = Inr w"
      and "col out (d @ ''_Traffic'') ! n = cast (dtype_of out (d @ ''_Traffic'')) w"
    by auto
  then show "\<exists>v. traffic_of (cell (items ! n) ''ranked_serp_element'') = Inr v
             \<and> kept_or_float64 v (cell (rows out ! n) (d @ ''_Traffic''))"
    by (simp add: row kept_or_float64_cast)
qed

lemma applied_unique: "applied f xs a \<Longrightarrow> applied f xs b \<Longrightarrow> a = b"
  by (auto simp: applied_def split: sum.splits)

text \<open>Below \<open>2^53\<close> the float64 of an int is the int.\<close>

lemma bit_length_le: "n < 2 ^ k \<Longrightarrow> bit_length n \<le> k"
proof (induction k arbitrary: n)
  case 0
  then show ?case by (simp add: bit_length.simps)
next
  case (Suc k)
  show ?case
  proof (cases "n \<le> 0")
    case True
    then show ?thesis by (simp add: bit_length.simps)
  next
    case False
    from Suc.prems have "n div 2 < 2 ^ k" by simp
    from Suc.IH [OF this] False show ?thesis by (subst bit_length.simps) simp
  qed
qed

lemma float64_of_int_exact:
  assumes "\<bar>n\<bar> < 2 ^ 53"
  shows "float64_of_int n = of_int n"
proof -
  from assms have "bit_length \<bar>n\<bar> \<le> 53" by (rule bit_length_le)
  then have "bit_length \<bar>n\<bar> - 53 = 0" by simp
  then show ?thesis by (simp add: float64_of_int_def Let_def)
qed

lemma kept_or_float64_int:
  assumes "kept_or_float64 (PInt k) v" and "\<bar>k\<bar> < 2 ^ 53"
  shows "v = PInt k \<or> v = PFloat (of_int k)"
  using assms by (auto simp: kept_or_float64_def float64_of_int_exact)

lemma kept_or_float64_float: "kept_or_float64 (PFloat x) v \<longleftrightarrow> v = PFloat x"
  by (auto simp: kept_or_float64_def)

lemma kept_or_float64_str: "kept_or_float64 (PStr s) v \<longleftrightarrow> v = PStr s"
  by (auto simp: kept_or_float64_def)

section \<open>Facts about the analysis\<close>

lemma normalise_keyword_Inr:
  assumes "normalise_keyword df = Inr df'"
  shows "''keyword'' \<in> set (columns df)"
    and "columns df' = columns df"
    and "length (rows df') = length (rows df)"
    and "col df' ''keyword'' = map str_lower_strip (col df ''keyword'')"
    and "c \<noteq> ''keyword'' \<Longrightarrow> col df' c = col df c"
    and "aligned df \<Longrightarrow> aligned df'"
    and "dtype_of df ''keyword'' = Object"
    and "dtype_of df' c = dtype_of df c"
proof -
  let ?vs = "map str_lower_strip (col df ''keyword'')"
  from assms have k: "''keyword'' \<in> set (columns df)"
    and ty: "dtype_of df ''keyword'' = Object"
    and df': "df' = setitem df ''keyword'' Object ?vs"
    by (auto simp: normalise_keyword_def bindE_Inr getitem_Inr split: if_splits)
  show "dtype_of df ''keyword'' = Object" by (rule ty)
  show "dtype_of df' c = dtype_of df c" using ty by (simp add: df' dtype_of_setitem)
  have len: "length ?vs = length (rows df)" by (simp add: col_def)
  show "''keyword'' \<in> set (columns df)" by (rule k)
  show "columns df' = columns df" using k by (simp add: df' setitem_def)
  show "length (rows df') = length (rows df)" by (simp add: df' setitem_def col_def)
  show "col df' ''keyword'' = ?vs" using col_setitem [OF len] by (simp add: df')
  show "c \<noteq> ''keyword'' \<Longrightarrow> col df' c = col df c"
    using col_setitem [OF len] by (simp add: df')
  show "aligned df'" if al: "aligned df"
  proof -
    have "map fst (AList.update ''keyword'' v r) = columns df" if "r \<in> set (rows df)" for r v
      using that al k by (auto simp: aligned_def list_all_iff update_keys)
    then show ?thesis
      using k by (auto simp: aligned_def list_all_iff df' setitem_def dest!: set_zip_leftD)
  qed
qed

lemma map_cast_Object: "map (cast Object) vs = vs"
  by (induction vs) simp_all

lemma dataset_of_Inr:
  assumes ds: "dataset_of items dl = Inr df" and ne: "\<not> empty_df (DataFrame items)"
  shows "columns df = columns_to_keep dl"
    and "aligned df"
    and "length (rows df) = length items"
    and "col df ''keyword'' = map normalised_keyword items"
    and "dtype_of df ''keyword'' = Object"
proof -
  from ds obtain df1 where ex: "extract_keyword_info (DataFrame items) dl = Inr df1"
    and nk: "normalise_keyword df1 = Inr df"
    by (auto simp: dataset_of_def bindE_Inr)
  note e = extract_Inr [OF ex ne]
  note k = normalise_keyword_Inr [OF nk]
  show "columns df = columns_to_keep dl" using e(1) k(2) by simp
  show "aligned df" using e(2) k(6) by simp
  show "length (rows df) = length items" using e(3) k(3) by (simp add: length_rows_DataFrame)
  show "dtype_of df ''keyword'' = Object" using k(7,8) by simp
  have "col df1 ''keyword'' = map raw_keyword items"
  proof -
    have "applied keyword_of (map (\<lambda>i. cell i ''keyword_data'') items) (tcol df1 ''keyword'')"
      using e(5) by (simp add: applied_DataFrame lambda_cast)
    then have tc: "tcol df1 ''keyword''
        = (infer_dtype (map raw_keyword items), infer_objects (map raw_keyword items))"
      by (simp add: applied_def mapE_keyword_of)
    with k(7) have "infer_dtype (map raw_keyword items) = Object" by (simp add: tcol_def)
    with tc show ?thesis by (simp add: tcol_def infer_objects_def map_cast_Object)
  qed
  then show "col df ''keyword'' = map normalised_keyword items"
    using k(4) by (simp add: normalised_keyword_def)
qed

lemma mask_filter: "map fst (filter snd (zip xs (map h xs))) = filter h xs"
  by (induction xs) auto

lemma rows_common:
  "rows (mask_rows my (isin (col my ''keyword'') vals))
     = filter (\<lambda>r. cell r ''keyword'' \<in> set vals) (rows my)"
  using mask_filter [of "rows my" "\<lambda>r. cell r ''keyword'' \<in> set vals"]
  by (simp add: mask_rows_def isin_def col_def comp_def)

lemma competitor_step_Inr:
  assumes "competitor_step cs my c (DataFrame items) = Inr (df, common)"
  shows "dataset_of items cs = Inr df"
    and "common = mask_rows my (isin (col my ''keyword'') (col df ''keyword''))"
  using assms
  by (auto simp: competitor_step_def dataset_of_def bindE_Inr getitem_Inr)

lemma competitor_loop_Inr:
  assumes "competitor_loop f comps my cs acc = Inr acc'"
    and "distinct (map fst (fst acc))" and "distinct (map fst (snd acc))"
  shows "(\<forall>c\<in>set cs. \<not> empty_df (DataFrame (f c)) \<longrightarrow>
            (\<exists>df common. competitor_step comps my c (DataFrame (f c)) = Inr (df, common)
               \<and> map_of (fst acc') c = Some df \<and> map_of (snd acc') c = Some common))
       \<and> (\<forall>d. \<not> (d \<in> set cs \<and> \<not> empty_df (DataFrame (f d))) \<longrightarrow>
            map_of (fst acc') d = map_of (fst acc) d \<and> map_of (snd acc') d = map_of (snd acc) d)
       \<and> map fst (fst acc')
           = first_seen (map fst (fst acc) @ filter (\<lambda>c. \<not> empty_df (DataFrame (f c))) cs)
       \<and> map fst (snd acc')
           = first_seen (map fst (snd acc) @ filter (\<lambda>c. \<not> empty_df (DataFrame (f c))) cs)"
  using assms
proof (induction cs arbitrary: acc)
  case Nil
  then show ?case by (simp add: first_seen_distinct)
next
  case (Cons c cs)
  show ?case
  proof (cases "empty_df (DataFrame (f c))")
    case True
    with Cons.prems have "competitor_loop f comps my cs acc = Inr acc'" by simp
    from Cons.IH [OF this Cons.prems(2,3)] True show ?thesis by auto
  next
    case False
    with Cons.prems(1) obtain df common
      where st: "competitor_step comps my c (DataFrame (f c)) = Inr (df, common)"
        and lp: "competitor_loop f comps my cs
                   (AList.update c df (fst acc), AList.update c common (snd acc)) = Inr acc'"
      by (auto simp: Let_def split: sum.splits)
    let ?acc1 = "(AList.update c df (fst acc), AList.update c common (snd acc))"
    have d1: "distinct (map fst (fst ?acc1))" "distinct (map fst (snd ?acc1))"
      using Cons.prems(2,3) by (simp_all add: distinct_update)
    note ih = Cons.IH [OF lp d1]
    have k1: "first_seen (map fst (AList.update c v al) @ R) = first_seen (map fst al @ c # R)"
      if "distinct (map fst al)" for al :: "(string \<times> frame) list" and v R
    proof (cases "c \<in> set (map fst al)")
      case True
      then have "filter (\<lambda>y. y \<notin> set (map fst al)) (filter (\<lambda>y. y \<noteq> c) (first_seen R))
          = filter (\<lambda>y. y \<notin> set (map fst al)) (first_seen R)"
        by (auto intro: filter_cong)
      with True show ?thesis by (simp add: update_keys first_seen_append)
    next
      case False
      have "filter (\<lambda>y. y \<notin> set (map fst al)) (filter (\<lambda>y. y \<noteq> c) (first_seen R))
          = filter (\<lambda>y. y \<noteq> c \<and> y \<notin> set (map fst al)) (first_seen R)"
        by (auto intro: filter_cong)
      with False show ?thesis
        by (simp add: update_keys first_seen_append first_seen_distinct that)
    qed
    have p1: "\<exists>df common. competitor_step comps my c' (DataFrame (f c')) = Inr (df, common)
               \<and> map_of (fst acc') c' = Some df \<and> map_of (snd acc') c' = Some common"
      if "c' \<in> set (c # cs)" "\<not> empty_df (DataFrame (f c'))" for c'
    proof (cases "c' \<in> set cs")
      case True
      with ih that(2) show ?thesis by blast
    next
      case False
      with that have c': "c' = c" by simp
      from False that(2) ih have "map_of (fst acc') c' = map_of (fst ?acc1) c'"
        "map_of (snd acc') c' = map_of (snd ?acc1) c'" by blast+
      then show ?thesis using st by (simp add: c' update_conv')
    qed
    have p2: "map_of (fst acc') d = map_of (fst acc) d \<and> map_of (snd acc') d = map_of (snd acc) d"
      if "\<not> (d \<in> set (c # cs) \<and> \<not> empty_df (DataFrame (f d)))" for d
    proof -
      from that False have dc: "d \<noteq> c" by auto
      from that have "\<not> (d \<in> set cs \<and> \<not> empty_df (DataFrame (f d)))" by auto
      with ih have "map_of (fst acc') d = map_of (fst ?acc1) d"
        "map_of (snd acc') d = map_of (snd ?acc1) d" by blast+
      with dc show ?thesis by (simp add: update_conv')
    qed
    have p3: "map fst (fst acc')
           = first_seen (map fst (fst acc) @ filter (\<lambda>c. \<not> empty_df (DataFrame (f c))) (c # cs))"
      "map fst (snd acc')
           = first_seen (map fst (snd acc) @ filter (\<lambda>c. \<not> empty_df (DataFrame (f c))) (c # cs))"
      using ih k1 [OF Cons.prems(2)] k1 [OF Cons.prems(3)] False by simp_all
    from p1 p2 p3 show ?thesis by blast
  qed
qed

lemma map_of_mapE_tagged:
  assumes "mapE (\<lambda>x. bindE (g x) (\<lambda>y. Inr (x, y))) xs = Inr m" and "a \<in> set xs"
  shows "\<exists>y. g a = Inr y \<and> map_of m a = Some y"
  using assms
proof (induction xs arbitrary: m)
  case Nil
  then show ?case by simp
next
  case (Cons x xs)
  from Cons.prems(1) obtain y m' where y: "g x = Inr y"
    and m': "mapE (\<lambda>x. bindE (g x) (\<lambda>y. Inr (x, y))) xs = Inr m'" and m: "m = (x, y) # m'"
    by (auto simp: bindE_def split: sum.splits)
  show ?case
  proof (cases "a = x")
    case True
    with y m show ?thesis by simp
  next
    case False
    with Cons.prems(2) have "a \<in> set xs" by simp
    from Cons.IH [OF m' this] False m show ?thesis by simp
  qed
qed

lemma build_matrix_Inr:
  assumes "build_matrix all names = Inr m" and "a \<in> set names" and "b \<in> set names"
  shows "\<exists>n. common_count all a b = Inr n \<and> matrix_at m a b = Some n"
proof -
  from map_of_mapE_tagged [OF assms(1) [unfolded build_matrix_def] assms(2)]
  obtain row where row: "mapE (\<lambda>domain2.
        bindE (common_count all a domain2) (\<lambda>n. Inr (domain2, n))) names = Inr row"
    and ma: "map_of m a = Some row"
    by blast
  from map_of_mapE_tagged [OF row assms(3)] ma show ?thesis
    by (auto simp: matrix_at_def)
qed

lemma common_count_diag:
  "common_count all a a = Inr n \<Longrightarrow> \<exists>A. map_of all a = Some A \<and> n = length (rows A)"
  by (auto simp: common_count_def bindE_Inr dict_item_def split: option.splits)

lemma length_intersection:
  "length (intersection (py_set xs) (py_set ys)) = card (set xs \<inter> set ys)"
proof -
  have "distinct (intersection (py_set xs) (py_set ys))"
    by (simp add: intersection_def py_set_def)
  moreover have "set (intersection (py_set xs) (py_set ys)) = set xs \<inter> set ys"
    by (auto simp: intersection_def py_set_def)
  ultimately show ?thesis by (metis distinct_card)
qed

lemma common_count_off:
  assumes "common_count all a b = Inr n" and "a \<noteq> b"
  shows "\<exists>A B. map_of all a = Some A \<and> map_of all b = Some B
           \<and> n = card (set (col A ''keyword'') \<inter> set (col B ''keyword''))"
  using assms
  by (auto simp: common_count_def bindE_Inr dict_item_def getitem_Inr length_intersection
      split: option.splits)

lemma records_reindex:
  assumes "map fst r = cs'" and "set cs' \<subseteq> set cs"
  shows "cell (reindex cs r) = cell r"
proof
  fix c
  show "cell (reindex cs r) c = cell r c"
  proof (cases "c \<in> set cs")
    case True
    then show ?thesis by (simp add: cell_reindex)
  next
    case False
    from assms have "set (map fst r) \<subseteq> set cs" by simp
    then have "fst ` set r \<subseteq> set cs" by simp
    with False have "c \<notin> fst ` set r" by blast
    with False show ?thesis by (simp add: cell_reindex cell_absent)
  qed
qed

lemma pd_concat_frames:
  assumes "pd_concat dfs = Inr out"
  shows "dfs \<noteq> []"
    and "\<exists>cs. out = concat_frames cs dfs \<and> (\<forall>df\<in>set dfs. set (columns df) \<subseteq> set cs)"
proof -
  from assms show ne: "dfs \<noteq> []" by (auto simp: pd_concat_def split: if_splits)
  show "\<exists>cs. out = concat_frames cs dfs \<and> (\<forall>df\<in>set dfs. set (columns df) \<subseteq> set cs)"
  proof (cases "list_all (\<lambda>df. columns df = columns (hd dfs)) dfs")
    case True
    with assms ne have "out = concat_frames (columns (hd dfs)) dfs"
      by (auto simp: pd_concat_def)
    moreover from True have "\<forall>df\<in>set dfs. set (columns df) \<subseteq> set (columns (hd dfs))"
      by (auto simp: list_all_iff)
    ultimately show ?thesis by blast
  next
    case False
    with assms ne have "out = concat_frames (first_seen (concat (map columns dfs))) dfs"
      by (auto simp: pd_concat_def split: if_splits)
    moreover have "\<forall>df\<in>set dfs.
        set (columns df) \<subseteq> set (first_seen (concat (map columns dfs)))"
      by (auto simp: set_first_seen)
    ultimately show ?thesis by blast
  qed
qed

lemma records_concat_frames:
  "records (concat_frames cs dfs)
     = concat (map (\<lambda>df.
         map (\<lambda>r. cell (map (\<lambda>c. (c, concat_cell (concat_dtype dfs c) df r c)) cs)) (rows df))
       dfs)"
  by (simp add: concat_frames_def records_def map_concat comp_def)

lemma col_concat_frames:
  "col (concat_frames cs dfs) c
     = concat (map (\<lambda>df.
         map (\<lambda>r. if c \<in> set cs then concat_cell (concat_dtype dfs c) df r c else PNaN)
           (rows df))
       dfs)"
  by (simp add: concat_frames_def col_def map_concat comp_def cell_reindexed)

lemma aligned_absent:
  assumes "map fst r = columns df" and "c \<notin> set (columns df)"
  shows "cell r c = PNaN"
proof -
  from assms have "c \<notin> set (map fst r)" by simp
  then have "c \<notin> fst ` set r" by simp
  then show ?thesis by (rule cell_absent)
qed

lemma concat_cell_kept:
  assumes "map fst r = columns df"
  shows "kept_or_float64 (cell r c) (concat_cell d df r c)"
proof (cases "c \<in> set (columns df)")
  case True
  then show ?thesis
    using kept_or_float64_cast [of "cell r c" d]
    by (auto simp: concat_cell_def kept_or_float64_def)
next
  case False
  with aligned_absent [OF assms] show ?thesis
    by (simp add: concat_cell_def kept_or_float64_def)
qed

lemma list_all2_concat_map:
  assumes "\<And>x. x \<in> set xs \<Longrightarrow> list_all2 R (f x) (g x)"
  shows "list_all2 R (concat (map f xs)) (concat (map g xs))"
  using assms by (induction xs) (auto intro: list_all2_appendI)

text \<open>
  What \<^verbatim>\<open>pd.concat\<close> keeps of the frames: the records in their order, every cell as
  it was or in its float64 form.
\<close>

lemma pd_concat_kept:
  assumes pc: "pd_concat dfs = Inr out" and al: "list_all aligned dfs"
  shows "list_all2 (\<lambda>r r'. \<forall>c. kept_or_float64 (r c) (r' c))
           (concat (map records dfs)) (records out)"
proof -
  from pd_concat_frames(2) [OF pc] obtain cs where out: "out = concat_frames cs dfs"
    and sub: "\<forall>df\<in>set dfs. set (columns df) \<subseteq> set cs"
    by blast
  have one: "list_all2 (\<lambda>r r'. \<forall>c. kept_or_float64 (r c) (r' c)) (records df)
      (map (\<lambda>r. cell (map (\<lambda>c. (c, concat_cell (concat_dtype dfs c) df r c)) cs)) (rows df))"
    if df: "df \<in> set dfs" for df
  proof -
    have "kept_or_float64 (cell r c)
            (cell (map (\<lambda>c. (c, concat_cell (concat_dtype dfs c) df r c)) cs) c)"
      if r: "r \<in> set (rows df)" for r c
    proof -
      from al df r have mf: "map fst r = columns df"
        by (auto simp: list_all_iff aligned_def)
      show ?thesis
      proof (cases "c \<in> set cs")
        case True
        then show ?thesis using concat_cell_kept [OF mf] by (simp add: cell_reindexed)
      next
        case False
        with sub df have "c \<notin> set (columns df)" by blast
        from aligned_absent [OF mf this] False show ?thesis
          by (simp add: cell_reindexed kept_or_float64_def)
      qed
    qed
    then show ?thesis
      by (simp add: records_def list_all2_map1 list_all2_map2 list_all2_same)
  qed
  show ?thesis
    unfolding out records_concat_frames by (rule list_all2_concat_map) (rule one)
qed

lemma common_dtype_Object:
  "ds \<noteq> [] \<Longrightarrow> \<forall>d\<in>set ds. d = Object \<Longrightarrow> common_dtype ds = Object"
  by (cases ds) (auto simp: common_dtype_def)

lemma common_dtype_same:
  "ds \<noteq> [] \<Longrightarrow> \<forall>d\<in>set ds. d = t \<Longrightarrow> common_dtype ds = t"
  by (cases ds) (auto simp: common_dtype_def list_all_iff)

lemma concat_dtype_same:
  assumes "dfs \<noteq> []" and "\<And>df. df \<in> set dfs \<Longrightarrow> c \<in> set (columns df) \<and> dtype_of df c = t"
  shows "concat_dtype dfs c = t"
proof -
  have f: "filter (\<lambda>df. c \<in> set (columns df)) dfs = dfs"
    using assms(2) by (auto intro: filter_True)
  have "common_dtype (map (\<lambda>df. dtype_of df c) dfs) = t"
    using assms by (intro common_dtype_same) auto
  then show ?thesis by (simp add: concat_dtype_def Let_def f)
qed

text \<open>A column that has the type \<^verbatim>\<open>object\<close> in every frame is kept as it is.\<close>

lemma pd_concat_object_column:
  assumes pc: "pd_concat dfs = Inr out"
    and ob: "\<And>df. df \<in> set dfs \<Longrightarrow> c \<in> set (columns df) \<and> dtype_of df c = Object"
  shows "col out c = concat (map (\<lambda>df. col df c) dfs)"
proof -
  note ne = pd_concat_frames(1) [OF pc]
  from pd_concat_frames(2) [OF pc] obtain cs where out: "out = concat_frames cs dfs"
    and sub: "\<forall>df\<in>set dfs. set (columns df) \<subseteq> set cs"
    by blast
  from ne have "hd dfs \<in> set dfs" by simp
  with ob sub have c: "c \<in> set cs" by blast
  have ty: "concat_dtype dfs c = Object"
    using ne ob by (rule concat_dtype_same)
  have inner: "map (\<lambda>r. if c \<in> set cs then concat_cell (concat_dtype dfs c) df r c else PNaN)
                 (rows df) = col df c"
    if "df \<in> set dfs" for df
    using ob [OF that] c by (simp add: ty concat_cell_def col_def)
  have "map (\<lambda>df. map (\<lambda>r. if c \<in> set cs then concat_cell (concat_dtype dfs c) df r c
                                else PNaN) (rows df)) dfs
      = map (\<lambda>df. col df c) dfs"
    by (rule map_cong [OF refl]) (rule inner)
  then show ?thesis by (simp only: out col_concat_frames)
qed

text \<open>Frames with the same columns of the same types are stacked as they are.\<close>

lemma pd_concat_same:
  assumes pc: "pd_concat dfs = Inr out"
    and same: "\<And>df. df \<in> set dfs \<Longrightarrow> columns df = cs \<and> dtypes df = ts \<and> aligned df"
  shows "records out = concat (map records dfs)"
proof -
  note ne = pd_concat_frames(1) [OF pc]
  then have hd: "hd dfs \<in> set dfs" by simp
  have "list_all (\<lambda>df. columns df = columns (hd dfs)) dfs"
    using same hd by (auto simp: list_all_iff)
  with pc ne have out: "out = concat_frames (columns (hd dfs)) dfs"
    by (auto simp: pd_concat_def)
  have cs: "columns (hd dfs) = cs" using same [OF hd] by simp
  have ty: "concat_dtype dfs c = dtype_of df c" if "df \<in> set dfs" "c \<in> set cs" for df c
  proof (rule concat_dtype_same [OF ne])
    fix df' assume "df' \<in> set dfs"
    from same [OF this] same [OF that(1)] that(2)
    show "c \<in> set (columns df') \<and> dtype_of df' c = dtype_of df c"
      by (simp add: dtype_of_def)
  qed
  have row: "cell (map (\<lambda>c. (c, concat_cell (concat_dtype dfs c) df r c)) cs) = cell r"
    if df: "df \<in> set dfs" and r: "r \<in> set (rows df)" for df r
  proof
    fix c
    from same [OF df] r have mf: "map fst r = cs" and cdf: "columns df = cs"
      by (auto simp: aligned_def list_all_iff)
    show "cell (map (\<lambda>c. (c, concat_cell (concat_dtype dfs c) df r c)) cs) c = cell r c"
    proof (cases "c \<in> set cs")
      case True
      with ty [OF df True] cdf show ?thesis by (simp add: cell_reindexed concat_cell_def)
    next
      case False
      with aligned_absent [of r df c] mf cdf show ?thesis by (simp add: cell_reindexed)
    qed
  qed
  have inner: "map (\<lambda>r. cell (map (\<lambda>c. (c, concat_cell (concat_dtype dfs c) df r c)) cs)) (rows df)
                 = records df"
    if df: "df \<in> set dfs" for df
    unfolding records_def by (rule map_cong [OF refl]) (rule row [OF df])
  have "map (\<lambda>df. map (\<lambda>r. cell (map (\<lambda>c. (c, concat_cell (concat_dtype dfs c) df r c)) cs))
                       (rows df)) dfs
      = map records dfs"
    by (rule map_cong [OF refl]) (rule inner)
  then show ?thesis by (simp only: out cs records_concat_frames)
qed

lemma gather_Some:
  assumes "gather_keywords f cs me = Inr (Some (my, all, common))"
  shows "\<not> empty_df (DataFrame (f me))"
    and "dataset_of (f me) [me] = Inr my"
    and "competitor_loop f cs my cs ([(me, my)], []) = Inr (all, common)"
proof -
  from assms show ne: "\<not> empty_df (DataFrame (f me))"
    by (auto simp: gather_keywords_def Let_def split: if_splits)
  with assms obtain df1 shown acc
    where "extract_keyword_info (DataFrame (f me)) [me] = Inr df1"
      and "normalise_keyword df1 = Inr my"
      and "competitor_loop f cs my cs ([(me, my)], []) = Inr acc"
      and "acc = (all, common)"
    by (auto simp: gather_keywords_def Let_def bindE_Inr split: prod.splits)
  then show "dataset_of (f me) [me] = Inr my"
    and "competitor_loop f cs my cs ([(me, my)], []) = Inr (all, common)"
    by (simp_all add: dataset_of_def bindE_def)
qed

lemma analysis_Some:
  assumes "content_gap_analysis f cs me = Inr (Some res)"
  shows "\<exists>my all common.
           gather_keywords f cs me = Inr (Some (my, all, common))
         \<and> build_matrix all (me # cs) = Inr (common_keywords_matrix res)
         \<and> pd_concat (map snd all) = Inr (all_keywords_df res)
         \<and> pd_concat (map snd common) = Inr (common_keywords_df res)"
proof -
  from assms obtain g where g: "gather_keywords f cs me = Inr g"
    and rest: "(case g of None \<Rightarrow> Inr None
       | Some (my_keywords_df, all_keywords, common_keywords) \<Rightarrow>
           bindE (build_matrix all_keywords (me # cs)) (\<lambda>m.
           bindE (pd_concat (map snd all_keywords)) (\<lambda>all_df.
           bindE (pd_concat (map snd common_keywords)) (\<lambda>common_df.
           Inr (Some \<lparr>all_keywords_df = all_df, common_keywords_df = common_df,
                       common_keywords_matrix = m\<rparr>))))) = Inr (Some res)"
    by (auto simp: content_gap_analysis_def bindE_Inr)
  from rest obtain my all common where g': "g = Some (my, all, common)"
    by (cases g) auto
  from rest show ?thesis
    unfolding g g' by (auto simp: bindE_Inr)
qed

lemma aligned_mask_rows: "aligned df \<Longrightarrow> aligned (mask_rows df m)"
  by (auto simp: aligned_def list_all_iff mask_rows_def dest!: set_zip_leftD)

lemma gathered_facts:
  assumes g: "gather_keywords f cs me = Inr (Some (my, all, common))"
    and bm: "build_matrix all (me # cs) = Inr m"
  shows "\<And>c. c \<in> set cs \<Longrightarrow> \<not> empty_df (DataFrame (f c))"
    and "\<And>c. c \<in> set cs \<Longrightarrow>
           \<exists>C. dataset_of (f c) cs = Inr C \<and> map_of all c = Some C
             \<and> map_of common c
                 = Some (mask_rows my (isin (col my ''keyword'') (col C ''keyword'')))"
    and "me \<notin> set cs \<Longrightarrow> map_of all me = Some my"
    and "map fst all = first_seen (me # cs)"
    and "map fst common = first_seen cs"
proof -
  note gs = gather_Some [OF g]
  have lp: "(\<forall>c\<in>set cs. \<not> empty_df (DataFrame (f c)) \<longrightarrow>
            (\<exists>df common'. competitor_step cs my c (DataFrame (f c)) = Inr (df, common')
               \<and> map_of all c = Some df \<and> map_of common c = Some common'))
       \<and> (\<forall>d. \<not> (d \<in> set cs \<and> \<not> empty_df (DataFrame (f d))) \<longrightarrow>
            map_of all d = map_of [(me, my)] d \<and> map_of common d = map_of [] d)
       \<and> map fst all
           = first_seen (map fst [(me, my)] @ filter (\<lambda>c. \<not> empty_df (DataFrame (f c))) cs)
       \<and> map fst common
           = first_seen (map fst ([] :: datasets) @ filter (\<lambda>c. \<not> empty_df (DataFrame (f c))) cs)"
    using competitor_loop_Inr [OF gs(3)] by simp
  show ne: "\<not> empty_df (DataFrame (f c))" if c: "c \<in> set cs" for c
  proof
    assume e: "empty_df (DataFrame (f c))"
    with gs(1) have cm: "c \<noteq> me" by auto
    from e lp have "map_of all c = map_of [(me, my)] c" by blast
    with cm have none: "map_of all c = None" by simp
    from build_matrix_Inr [OF bm, of me c] c obtain n where "common_count all me c = Inr n"
      by auto
    with cm none show False
      by (auto simp: common_count_def bindE_Inr dict_item_def split: option.splits)
  qed
  show "\<exists>C. dataset_of (f c) cs = Inr C \<and> map_of all c = Some C
             \<and> map_of common c
                 = Some (mask_rows my (isin (col my ''keyword'') (col C ''keyword'')))"
    if c: "c \<in> set cs" for c
  proof -
    from lp c ne [OF c] obtain df common'
      where st: "competitor_step cs my c (DataFrame (f c)) = Inr (df, common')"
        and "map_of all c = Some df" "map_of common c = Some common'"
      by blast
    with competitor_step_Inr [OF st] show ?thesis by simp
  qed
  show "map_of all me = Some my" if "me \<notin> set cs"
    using lp that by simp
  have "filter (\<lambda>c. \<not> empty_df (DataFrame (f c))) cs = cs"
    using ne by (auto intro: filter_True)
  with lp show "map fst all = first_seen (me # cs)" and "map fst common = first_seen cs"
    by simp_all
qed

lemma gathered_dataset:
  assumes g: "gather_keywords f cs me = Inr (Some (my, all, common))"
    and bm: "build_matrix all (me # cs) = Inr m"
    and d: "d \<in> set (me # cs)"
  shows "\<exists>D dl. map_of all d = Some D \<and> dataset_of (f d) dl = Inr D
           \<and> \<not> empty_df (DataFrame (f d))"
proof (cases "d \<in> set cs")
  case True
  from gathered_facts(1,2) [OF g bm True] show ?thesis by blast
next
  case False
  with d have dm: "d = me" by simp
  with False gathered_facts(3) [OF g bm] gather_Some(1,2) [OF g] show ?thesis by blast
qed

lemma matrix_entries:
  assumes g: "gather_keywords f cs me = Inr (Some (my, all, common))"
    and bm: "build_matrix all (me # cs) = Inr m"
    and a: "a \<in> set (me # cs)" and b: "b \<in> set (me # cs)"
  shows "\<exists>A B. map_of all a = Some A \<and> map_of all b = Some B
           \<and> col A ''keyword'' = map normalised_keyword (f a)
           \<and> col B ''keyword'' = map normalised_keyword (f b)
           \<and> length (rows A) = length (f a)
           \<and> matrix_at m a b
               = Some (if a = b then length (rows A)
                       else card (set (col A ''keyword'') \<inter> set (col B ''keyword'')))"
proof -
  from gathered_dataset [OF g bm a] obtain A dla where A: "map_of all a = Some A"
    and dA: "dataset_of (f a) dla = Inr A" "\<not> empty_df (DataFrame (f a))" by blast
  from gathered_dataset [OF g bm b] obtain B dlb where B: "map_of all b = Some B"
    and dB: "dataset_of (f b) dlb = Inr B" "\<not> empty_df (DataFrame (f b))" by blast
  from build_matrix_Inr [OF bm a b] obtain n where n: "common_count all a b = Inr n"
    and mn: "matrix_at m a b = Some n" by blast
  have "n = (if a = b then length (rows A)
             else card (set (col A ''keyword'') \<inter> set (col B ''keyword'')))"
  proof (cases "a = b")
    case True
    with n A common_count_diag [of all a n] show ?thesis by auto
  next
    case False
    with n A B common_count_off [of all a b n] show ?thesis by auto
  qed
  with A B mn dataset_of_Inr(3,4) [OF dA] dataset_of_Inr(4) [OF dB] show ?thesis by simp
qed

lemma na_lowered: "str_strip (str_lower ''N/A'') = ''n/a''"
  by code_simp

lemma lacks_keyword_normalised: "lacks_keyword i \<Longrightarrow> normalised_keyword i = PStr ''n/a''"
  by (auto simp: lacks_keyword_def normalised_keyword_def raw_keyword_def dict_get_def na_lowered
      split: pyval.splits)

lemma count_list_filter:
  "count_list (filter P xs) x = (if P x then count_list xs x else 0)"
  by (induction xs) auto

lemma map_of_distinct_keys: "distinct (map fst al) \<Longrightarrow> (k, v) \<in> set al \<Longrightarrow> map_of al k = Some v"
  by simp

lemma scenario_completes:
  "content_gap_analysis scenario_fetch [''rival.example''] ''shop.example''
     = Inr (Some scenario_result)"
  by code_simp

lemma gappy_completes:
  "content_gap_analysis gappy_fetch [''rival.example''] ''shop.example'' = Inr (Some gappy_result)"
  by code_simp

lemma trio_completes:
  "content_gap_analysis trio_fetch [''rival.example'', ''outlet.example''] ''shop.example''
     = Inr (Some trio_result)"
  by code_simp

text \<open>
  A competitor without data is left out of \<^verbatim>\<open>all_keywords\<close> but stays in
  \<^verbatim>\<open>domain_names\<close>, so the matrix loop cannot finish.
\<close>

lemma skipped_competitor_fatal:
  assumes "c \<in> set competitors" and "empty_df (DataFrame (get_keywords c))"
  shows "content_gap_analysis get_keywords competitors my_domain \<noteq> Inr (Some res)"
proof
  assume "content_gap_analysis get_keywords competitors my_domain = Inr (Some res)"
  from analysis_Some [OF this] obtain my all common
    where g: "gather_keywords get_keywords competitors my_domain = Inr (Some (my, all, common))"
      and bm: "build_matrix all (my_domain # competitors) = Inr (common_keywords_matrix res)"
    by blast
  from gathered_facts(1) [OF g bm assms(1)] assms(2) show False by simp
qed

section \<open>The normaliser: defaults, rank and traffic\<close>

text \<open>
  C5. The claim: for every raw item the extraction never fails and never drops the
  record, a missing \<^verbatim>\<open>keyword_data\<close>, \<^verbatim>\<open>keyword_info\<close> or
  \<^verbatim>\<open>keyword_properties\<close> giving the stated default. The lambdas of lines 120 to 135
  default every missing key, and those of lines 131, 141 and 145 guard a null, so the code
  means the extraction to go through. It does not: line 143 reads the column
  \<^verbatim>\<open>ranked_serp_element\<close> of the raw frame, and the frame has that column only when
  some item of the batch has the member, which the response contract allows to be absent.
  For the item of the contract without it, the extraction raises KeyError and returns no
  record.
\<close>

theorem extract_keyword_info_raises:
  "extract_keyword_info (DataFrame [contract_item]) [''a.com'']
     = Inl (KeyError ''ranked_serp_element'')"
  by code_simp

text \<open>
  Two more ways in which the extraction of a batch fails. A \<^verbatim>\<open>keyword_info\<close> that is
  present but null has no \<^verbatim>\<open>get\<close>, and line 124 raises AttributeError: the default
  \<^verbatim>\<open>{}\<close> of \<^verbatim>\<open>x.get('keyword_info', {})\<close> stands in for a missing key only. And a
  batch in which no item has \<^verbatim>\<open>keyword_data\<close> has no such column, so that line 120
  raises KeyError, although an item without \<^verbatim>\<open>keyword_data\<close> gets the keyword "N/A"
  as soon as another item of the batch has the key.
\<close>

lemma extract_keyword_info_null_keyword_info:
  "extract_keyword_info
     (DataFrame [[(''keyword_data'',
                     PDict [(''keyword'', PStr ''shoes''), (''keyword_info'', PNone)]),
                  (''ranked_serp_element'', PNone)]])
     [''a.com''] = Inl AttributeError"
  by code_simp

lemma extract_keyword_info_no_keyword_data:
  "extract_keyword_info (DataFrame [[(''ranked_serp_element'', PNone)]]) [''a.com'']
     = Inl (KeyError ''keyword_data'')"
  by code_simp

text \<open>
  C8, as amended. When the extraction of a batch returns, take an item whose
  \<^verbatim>\<open>keyword_data\<close> is a dict that holds \<^verbatim>\<open>avg_backlinks_info\<close> with a \<^verbatim>\<open>rank\<close>, and
  whose top-level \<^verbatim>\<open>ranked_serp_element\<close> holds \<^verbatim>\<open>serp_item\<close> with an \<^verbatim>\<open>etv\<close>. For
  every domain of the domain list, the record's position column of that domain holds the
  rank and its traffic column holds the etv, each as the value itself or, where pandas
  made the column float64, as its float64 form: a null is \<^verbatim>\<open>nan\<close> and an int is the
  nearest float, the same number below \<open>2^53\<close> (lemma \<open>float64_of_int_exact\<close>). The
  columns of all domains of the list hold the same two cells.
\<close>

theorem position_and_traffic_by_domain:
  assumes ex: "extract_keyword_info (DataFrame items) domain_list = Inr out"
    and n: "n < length items"
    and d: "domain \<in> set domain_list"
    and kd: "cell (items ! n) ''keyword_data'' = PDict kd"
    and ab: "map_of kd ''avg_backlinks_info'' = Some (PDict ab)"
    and rank: "map_of ab ''rank'' = Some rank"
    and rse: "cell (items ! n) ''ranked_serp_element'' = PDict rse"
    and si: "map_of rse ''serp_item'' = Some (PDict si)"
    and etv: "map_of si ''etv'' = Some etv"
  shows "kept_or_float64 rank (cell (rows out ! n) (domain @ ''_Position''))
       \<and> kept_or_float64 etv (cell (rows out ! n) (domain @ ''_Traffic''))
       \<and> (\<forall>d\<in>set domain_list.
             cell (rows out ! n) (d @ ''_Position'')
               = cell (rows out ! n) (domain @ ''_Position'')
           \<and> cell (rows out ! n) (d @ ''_Traffic'')
               = cell (rows out ! n) (domain @ ''_Traffic''))"
proof -
  have "''keyword_data'' \<in> fst ` set (items ! n)"
  proof (rule ccontr)
    assume "''keyword_data'' \<notin> fst ` set (items ! n)"
    then have "cell (items ! n) ''keyword_data'' = PNaN" by (rule cell_absent)
    with kd show False by simp
  qed
  with n have "has_column items ''keyword_data''"
    by (auto simp: has_column_def list_ex_iff)
  then have ne: "\<not> empty_df (DataFrame items)" by (rule not_empty_DataFrame)
  from rank have ab_ne: "ab \<noteq> []" by auto
  from etv have si_ne: "si \<noteq> []" by auto
  have "position_of (PDict kd) = Inr rank"
    using ab rank ab_ne by (simp add: position_of_def dict_get_def)
  moreover have "traffic_of (PDict rse) = Inr etv"
    using si etv si_ne by (simp add: traffic_of_def dict_get_def)
  ultimately have own: "kept_or_float64 rank (cell (rows out ! n) (domain @ ''_Position''))"
    "kept_or_float64 etv (cell (rows out ! n) (domain @ ''_Traffic''))"
    using extract_row [OF ex ne n d] kd rse by simp_all
  have len: "n < length (rows out)"
    using extract_Inr(3) [OF ex ne] n by (simp add: length_rows_DataFrame)
  have same: "cell (rows out ! n) (d' @ ''_Position'')
                = cell (rows out ! n) (domain @ ''_Position'')
            \<and> cell (rows out ! n) (d' @ ''_Traffic'')
                = cell (rows out ! n) (domain @ ''_Traffic'')"
    if d': "d' \<in> set domain_list" for d'
  proof -
    have "tcol out (d' @ ''_Position'') = tcol out (domain @ ''_Position'')"
      using extract_Inr(10) [OF ex ne d'] extract_Inr(10) [OF ex ne d] by (rule applied_unique)
    moreover have "tcol out (d' @ ''_Traffic'') = tcol out (domain @ ''_Traffic'')"
      using extract_Inr(11) [OF ex ne d'] extract_Inr(11) [OF ex ne d] by (rule applied_unique)
    ultimately show ?thesis using len by (simp add: tcol_def cell_row)
  qed
  from own same show ?thesis by blast
qed

theorem position_and_traffic_by_domain_witness:
  "extract_keyword_info (DataFrame [provider_item, unranked_item]) [''a.com'', ''b.com'']
     = Inr provider_frame
   \<and> (0::nat) < length [provider_item, unranked_item]
   \<and> ''b.com'' \<in> set [''a.com'', ''b.com'']
   \<and> kept_or_float64 (PInt 7) (cell (rows provider_frame ! 0) (''b.com'' @ ''_Position''))
   \<and> kept_or_float64 (PInt 12) (cell (rows provider_frame ! 0) (''b.com'' @ ''_Traffic''))
   \<and> cell (rows provider_frame ! 0) (''a.com'' @ ''_Position'')
       = cell (rows provider_frame ! 0) (''b.com'' @ ''_Position'')"
proof -
  have h1: "extract_keyword_info (DataFrame [provider_item, unranked_item])
              [''a.com'', ''b.com''] = Inr provider_frame"
    by code_simp
  have h2: "(0::nat) < length [provider_item, unranked_item]" by simp
  have h3: "''b.com'' \<in> set [''a.com'', ''b.com'']" by simp
  have h4: "cell ([provider_item, unranked_item] ! 0) ''keyword_data''
              = PDict [(''keyword'', PStr ''shoes''),
                       (''keyword_info'',
                          PDict [(''search_volume'', PInt 10), (''cpc'', PInt 2),
                                 (''last_updated_time'', PStr ''2024-05-01'')]),
                       (''keyword_properties'', PDict [(''keyword_difficulty'', PInt 40)]),
                       (''avg_backlinks_info'', PDict [(''rank'', PInt 7)])]"
    by (simp add: provider_item_def cell_def dict_get_def)
  have h5: "cell ([provider_item, unranked_item] ! 0) ''ranked_serp_element''
              = PDict [(''serp_item'', PDict [(''etv'', PInt 12)])]"
    by (simp add: provider_item_def cell_def dict_get_def)
  from position_and_traffic_by_domain [OF h1 h2 h3 h4 _ _ h5, of "[(''rank'', PInt 7)]" "PInt 7"
      "[(''etv'', PInt 12)]" "PInt 12"]
  have "kept_or_float64 (PInt 7) (cell (rows provider_frame ! 0) (''b.com'' @ ''_Position''))
      \<and> kept_or_float64 (PInt 12) (cell (rows provider_frame ! 0) (''b.com'' @ ''_Traffic''))
      \<and> cell (rows provider_frame ! 0) (''a.com'' @ ''_Position'')
          = cell (rows provider_frame ! 0) (''b.com'' @ ''_Position'')"
    by simp
  with h1 h2 h3 show ?thesis by blast
qed

text \<open>
  C8 as it is written fails: with \<^verbatim>\<open>avg_backlinks_info\<close> at the top level of
  the item, where the claim puts it, its rank 7 is not read and the position columns
  hold 0.
\<close>

theorem top_level_rank_not_read:
  "extract_keyword_info
     (DataFrame
        [[(''keyword_data'',
             PDict [(''keyword'', PStr ''shoes''),
                    (''keyword_info'',
                       PDict [(''search_volume'', PInt 10), (''cpc'', PInt 2),
                              (''last_updated_time'', PStr ''2024-05-01'')]),
                    (''keyword_properties'', PDict [(''keyword_difficulty'', PInt 40)])]),
          (''avg_backlinks_info'', PDict [(''rank'', PInt 7)]),
          (''ranked_serp_element'', PDict [(''serp_item'', PDict [(''etv'', PInt 12)])])]])
     [''a.com'', ''b.com'']
   = Inr \<lparr>columns =
             [''keyword'', ''search_volume'', ''Keyword_Difficulty'', ''CPC'',
              ''last_updated_time'', ''a.com_Position'', ''b.com_Position'',
              ''a.com_Traffic'', ''b.com_Traffic''],
           dtypes =
             [(''keyword'', Object), (''search_volume'', Int64),
              (''Keyword_Difficulty'', Int64), (''CPC'', Int64),
              (''last_updated_time'', Object), (''a.com_Position'', Int64),
              (''b.com_Position'', Int64), (''a.com_Traffic'', Int64),
              (''b.com_Traffic'', Int64)],
           rows =
             [[(''keyword'', PStr ''shoes''), (''search_volume'', PInt 10),
               (''Keyword_Difficulty'', PInt 40), (''CPC'', PInt 2),
               (''last_updated_time'', PStr ''2024-05-01''),
               (''a.com_Position'', PInt 0), (''b.com_Position'', PInt 0),
               (''a.com_Traffic'', PInt 12), (''b.com_Traffic'', PInt 12)]]\<rparr>"
  by code_simp

section \<open>The analysis\<close>

text \<open>
  C4. When the fetch returns no items for the primary domain, the analysis returns
  \<^verbatim>\<open>None\<close> (line 173), whatever the competitors are: no matrix and no dataset is
  produced.
\<close>

theorem no_data_for_primary_domain:
  assumes "get_keywords my_domain = []"
  shows "content_gap_analysis get_keywords competitors my_domain = Inr None"
  using assms
  by (simp add: content_gap_analysis_def gather_keywords_def DataFrame_def empty_df_def bindE_def)

theorem no_data_for_primary_domain_witness:
  "scenario_fetch ''nowhere.example'' = []
   \<and> content_gap_analysis scenario_fetch [''rival.example''] ''nowhere.example'' = Inr None"
proof -
  have h: "scenario_fetch ''nowhere.example'' = []" by (simp add: scenario_fetch_def)
  from no_data_for_primary_domain
      [where get_keywords = scenario_fetch and my_domain = "''nowhere.example''", OF h]
    h show ?thesis by simp
qed

text \<open>
  C1. The claim: when the primary domain has data and some competitor has none, the
  analysis still completes, the competitor being skipped with a warning and left out of
  the matrix and of the common keywords. The code takes the warning branch at line 211,
  but line 214 builds \<^verbatim>\<open>domain_names\<close> from all competitors, and the lookup
  \<^verbatim>\<open>all_keywords[domain2]\<close> at line 223 raises KeyError for the skipped one. In the
  scenario with a second competitor that has no data, the analysis ends in that KeyError
  and returns nothing.
\<close>

theorem empty_competitor_raises:
  "content_gap_analysis scenario_fetch [''rival.example'', ''ghost.example''] ''shop.example''
     = Inl (KeyError ''ghost.example'')"
  by code_simp

text \<open>
  C2. In a completed analysis, for two distinct domains \<open>a\<close> and \<open>b\<close> of the matrix, the
  entry \<open>M[a][b]\<close> is the number of elements of the intersection of the two sets of
  normalised keywords, those of dataset \<open>a\<close> and those of dataset \<open>b\<close>; the keyword column
  of each dataset holds the normalised keywords of the raw items of its domain. A keyword
  that occurs several times in a dataset is counted once.
\<close>

theorem matrix_off_diagonal:
  assumes ok: "content_gap_analysis get_keywords competitors my_domain = Inr (Some res)"
    and a: "a \<in> set (my_domain # competitors)"
    and b: "b \<in> set (my_domain # competitors)"
    and ab: "a \<noteq> b"
  shows "\<exists>my all common A B.
           gather_keywords get_keywords competitors my_domain = Inr (Some (my, all, common))
         \<and> map_of all a = Some A \<and> map_of all b = Some B
         \<and> col A ''keyword'' = map normalised_keyword (get_keywords a)
         \<and> col B ''keyword'' = map normalised_keyword (get_keywords b)
         \<and> matrix_at (common_keywords_matrix res) a b
             = Some (card (set (col A ''keyword'') \<inter> set (col B ''keyword'')))"
proof -
  from analysis_Some [OF ok] obtain my all common
    where g: "gather_keywords get_keywords competitors my_domain = Inr (Some (my, all, common))"
      and bm: "build_matrix all (my_domain # competitors) = Inr (common_keywords_matrix res)"
    by blast
  from matrix_entries [OF g bm a b] ab g show ?thesis by auto
qed

theorem matrix_off_diagonal_witness:
  "content_gap_analysis scenario_fetch [''rival.example''] ''shop.example''
     = Inr (Some scenario_result)
   \<and> ''shop.example'' \<in> set (''shop.example'' # [''rival.example''])
   \<and> ''rival.example'' \<in> set (''shop.example'' # [''rival.example''])
   \<and> ''shop.example'' \<noteq> ''rival.example''
   \<and> matrix_at (common_keywords_matrix scenario_result) ''shop.example'' ''rival.example''
       = Some (card (set (map normalised_keyword (scenario_fetch ''shop.example''))
                     \<inter> set (map normalised_keyword (scenario_fetch ''rival.example''))))"
proof -
  have h1: "content_gap_analysis scenario_fetch [''rival.example''] ''shop.example''
              = Inr (Some scenario_result)"
    by (rule scenario_completes)
  have h2: "''shop.example'' \<in> set (''shop.example'' # [''rival.example''])" by simp
  have h3: "''rival.example'' \<in> set (''shop.example'' # [''rival.example''])" by simp
  have h4: "''shop.example'' \<noteq> ''rival.example''" by simp
  from matrix_off_diagonal [OF h1 h2 h3 h4]
  have "matrix_at (common_keywords_matrix scenario_result) ''shop.example'' ''rival.example''
       = Some (card (set (map normalised_keyword (scenario_fetch ''shop.example''))
                     \<inter> set (map normalised_keyword (scenario_fetch ''rival.example''))))"
    by auto
  with h1 h2 h3 h4 show ?thesis by blast
qed

text \<open>
  C6. In a completed analysis, \<open>M[a][b] = M[b][a]\<close> for all domains \<open>a\<close> and \<open>b\<close> of the
  matrix.
\<close>

theorem matrix_symmetric:
  assumes ok: "content_gap_analysis get_keywords competitors my_domain = Inr (Some res)"
    and a: "a \<in> set (my_domain # competitors)"
    and b: "b \<in> set (my_domain # competitors)"
  shows "matrix_at (common_keywords_matrix res) a b = matrix_at (common_keywords_matrix res) b a"
proof -
  from analysis_Some [OF ok] obtain my all common
    where g: "gather_keywords get_keywords competitors my_domain = Inr (Some (my, all, common))"
      and bm: "build_matrix all (my_domain # competitors) = Inr (common_keywords_matrix res)"
    by blast
  from matrix_entries [OF g bm a b] matrix_entries [OF g bm b a] show ?thesis
    by (auto simp: Int_commute)
qed

theorem matrix_symmetric_witness:
  "content_gap_analysis scenario_fetch [''rival.example''] ''shop.example''
     = Inr (Some scenario_result)
   \<and> ''shop.example'' \<in> set (''shop.example'' # [''rival.example''])
   \<and> ''rival.example'' \<in> set (''shop.example'' # [''rival.example''])
   \<and> matrix_at (common_keywords_matrix scenario_result) ''shop.example'' ''rival.example''
       = matrix_at (common_keywords_matrix scenario_result) ''rival.example'' ''shop.example''"
proof -
  have h1: "content_gap_analysis scenario_fetch [''rival.example''] ''shop.example''
              = Inr (Some scenario_result)"
    by (rule scenario_completes)
  have h2: "''shop.example'' \<in> set (''shop.example'' # [''rival.example''])" by simp
  have h3: "''rival.example'' \<in> set (''shop.example'' # [''rival.example''])" by simp
  from matrix_symmetric [OF h1 h2 h3] h1 h2 h3 show ?thesis by blast
qed

text \<open>
  C7. In a completed analysis, the diagonal entry \<open>M[a][a]\<close> is the number of records of
  dataset \<open>a\<close>, which is the number of raw items fetched for \<open>a\<close>: records with the same
  keyword are all counted.
\<close>

theorem matrix_diagonal:
  assumes ok: "content_gap_analysis get_keywords competitors my_domain = Inr (Some res)"
    and a: "a \<in> set (my_domain # competitors)"
  shows "\<exists>my all common A.
           gather_keywords get_keywords competitors my_domain = Inr (Some (my, all, common))
         \<and> map_of all a = Some A
         \<and> matrix_at (common_keywords_matrix res) a a = Some (length (rows A))
         \<and> length (rows A) = length (get_keywords a)"
proof -
  from analysis_Some [OF ok] obtain my all common
    where g: "gather_keywords get_keywords competitors my_domain = Inr (Some (my, all, common))"
      and bm: "build_matrix all (my_domain # competitors) = Inr (common_keywords_matrix res)"
    by blast
  from matrix_entries [OF g bm a a] g show ?thesis by auto
qed

theorem matrix_diagonal_witness:
  "content_gap_analysis scenario_fetch [''rival.example''] ''shop.example''
     = Inr (Some scenario_result)
   \<and> ''shop.example'' \<in> set (''shop.example'' # [''rival.example''])
   \<and> matrix_at (common_keywords_matrix scenario_result) ''shop.example'' ''shop.example''
       = Some (length (scenario_fetch ''shop.example''))"
proof -
  have h1: "content_gap_analysis scenario_fetch [''rival.example''] ''shop.example''
              = Inr (Some scenario_result)"
    by (rule scenario_completes)
  have h2: "''shop.example'' \<in> set (''shop.example'' # [''rival.example''])" by simp
  from matrix_diagonal [OF h1 h2]
  have "matrix_at (common_keywords_matrix scenario_result) ''shop.example'' ''shop.example''
       = Some (length (scenario_fetch ''shop.example''))"
    by auto
  with h1 h2 show ?thesis by blast
qed

text \<open>
  C3. In a completed analysis, the common-keyword subset of a competitor \<open>c\<close> is the
  primary dataset filtered by the test that the normalised keyword of the record occurs
  in the keyword column of the dataset of \<open>c\<close>: every record of the subset passes the
  test, and every record of the primary dataset that passes it is in the subset as many
  times as it is in the primary dataset.
\<close>

theorem common_keyword_subset:
  assumes ok: "content_gap_analysis get_keywords competitors my_domain = Inr (Some res)"
    and c: "c \<in> set competitors"
  shows "\<exists>my all common C sub.
           gather_keywords get_keywords competitors my_domain = Inr (Some (my, all, common))
         \<and> dataset_of (get_keywords my_domain) [my_domain] = Inr my
         \<and> map_of all c = Some C \<and> map_of common c = Some sub
         \<and> col C ''keyword'' = map normalised_keyword (get_keywords c)
         \<and> rows sub = filter (\<lambda>r. cell r ''keyword'' \<in> set (col C ''keyword'')) (rows my)
         \<and> (\<forall>r. count_list (rows sub) r
                 = (if cell r ''keyword'' \<in> set (col C ''keyword'')
                    then count_list (rows my) r else 0))"
proof -
  from analysis_Some [OF ok] obtain my all common
    where g: "gather_keywords get_keywords competitors my_domain = Inr (Some (my, all, common))"
      and bm: "build_matrix all (my_domain # competitors) = Inr (common_keywords_matrix res)"
    by blast
  from gathered_facts(2) [OF g bm c] obtain C
    where C: "dataset_of (get_keywords c) competitors = Inr C" "map_of all c = Some C"
      and sub: "map_of common c
                  = Some (mask_rows my (isin (col my ''keyword'') (col C ''keyword'')))"
    by blast
  let ?sub = "mask_rows my (isin (col my ''keyword'') (col C ''keyword''))"
  have kw: "col C ''keyword'' = map normalised_keyword (get_keywords c)"
    using dataset_of_Inr(4) [OF C(1) gathered_facts(1) [OF g bm c]] .
  have rows: "rows ?sub = filter (\<lambda>r. cell r ''keyword'' \<in> set (col C ''keyword'')) (rows my)"
    by (rule rows_common)
  have cnt: "count_list (rows ?sub) r
      = (if cell r ''keyword'' \<in> set (col C ''keyword'') then count_list (rows my) r else 0)"
    for r
    unfolding rows by (rule count_list_filter)
  from g gather_Some(2) [OF g] C(2) sub kw rows cnt show ?thesis by blast
qed

theorem common_keyword_subset_witness:
  "content_gap_analysis scenario_fetch [''rival.example''] ''shop.example''
     = Inr (Some scenario_result)
   \<and> ''rival.example'' \<in> set [''rival.example'']
   \<and> (\<exists>my all common C sub.
           gather_keywords scenario_fetch [''rival.example''] ''shop.example''
             = Inr (Some (my, all, common))
         \<and> dataset_of (scenario_fetch ''shop.example'') [''shop.example''] = Inr my
         \<and> map_of all ''rival.example'' = Some C \<and> map_of common ''rival.example'' = Some sub
         \<and> col C ''keyword'' = map normalised_keyword (scenario_fetch ''rival.example'')
         \<and> rows sub = filter (\<lambda>r. cell r ''keyword'' \<in> set (col C ''keyword'')) (rows my))"
proof -
  have h1: "content_gap_analysis scenario_fetch [''rival.example''] ''shop.example''
              = Inr (Some scenario_result)"
    by (rule scenario_completes)
  have h2: "''rival.example'' \<in> set [''rival.example'']" by simp
  from common_keyword_subset [OF h1 h2] h1 h2 show ?thesis by blast
qed

text \<open>
  C9 as it is written fails. \<^verbatim>\<open>pd.concat\<close> fills the columns that a dataset lacks
  with \<^verbatim>\<open>nan\<close>, and the position and traffic columns of the shop, which the rival's
  dataset lacks, become float64. The record of the shop's dataset holds the rank
  \<open>2^53 + 1\<close>; the record of \<^verbatim>\<open>all_keywords_df\<close> holds \<open>2^53\<close>, so
  \<^verbatim>\<open>all_keywords_df\<close> is not the concatenation of the datasets.
\<close>

theorem all_keywords_rounds_rank:
  "content_gap_analysis big_fetch [''rival.example''] ''shop.example'' = Inr (Some big_result)
   \<and> dataset_of (big_fetch ''shop.example'') [''shop.example''] = Inr big_shop
   \<and> cell (hd (rows big_shop)) ''shop.example_Position'' = PInt 9007199254740993
   \<and> cell (hd (rows (all_keywords_df big_result))) ''shop.example_Position''
       = PFloat 9007199254740992"
proof (intro conjI)
  show "content_gap_analysis big_fetch [''rival.example''] ''shop.example''
          = Inr (Some big_result)"
    by code_simp
  show "dataset_of (big_fetch ''shop.example'') [''shop.example''] = Inr big_shop"
    by code_simp
  show "cell (hd (rows big_shop)) ''shop.example_Position'' = PInt 9007199254740993"
    by code_simp
  show "cell (hd (rows (all_keywords_df big_result))) ''shop.example_Position''
          = PFloat 9007199254740992"
    by code_simp
qed

text \<open>
  C9, as amended. In a completed analysis, the datasets of \<^verbatim>\<open>all_keywords\<close> are those
  of the primary domain and of the competitors, each domain once and in the order of its
  first appearance in the input, which is the input order when no domain is named twice.
  The records of \<^verbatim>\<open>all_keywords_df\<close> are the records of these datasets, one dataset
  after the other and each in its own order; a record keeps its keyword, and every other
  cell is the cell of the dataset or its float64 form, the columns of the other datasets
  being \<^verbatim>\<open>nan\<close> in it. The records of \<^verbatim>\<open>common_keywords_df\<close> are those of the
  common-keyword subsets, unchanged, in the order of the competitors.
\<close>

theorem concatenation_order:
  assumes ok: "content_gap_analysis get_keywords competitors my_domain = Inr (Some res)"
  shows "\<exists>my all common.
           gather_keywords get_keywords competitors my_domain = Inr (Some (my, all, common))
         \<and> map fst all = first_seen (my_domain # competitors)
         \<and> (\<forall>d\<in>set (my_domain # competitors).
               \<exists>D dl. map_of all d = Some D \<and> dataset_of (get_keywords d) dl = Inr D)
         \<and> list_all2 (\<lambda>r r'. \<forall>c. kept_or_float64 (r c) (r' c))
             (concat (map (\<lambda>(d, D). records D) all)) (records (all_keywords_df res))
         \<and> col (all_keywords_df res) ''keyword'' = concat (map (\<lambda>(d, D). col D ''keyword'') all)
         \<and> map fst common = first_seen competitors
         \<and> (\<forall>c\<in>set competitors.
               \<exists>C. map_of all c = Some C
                 \<and> map_of common c
                     = Some (mask_rows my (isin (col my ''keyword'') (col C ''keyword''))))
         \<and> records (common_keywords_df res) = concat (map (\<lambda>(c, sub). records sub) common)
         \<and> (distinct (my_domain # competitors) \<longrightarrow>
               map fst all = my_domain # competitors \<and> map fst common = competitors)"
proof -
  from analysis_Some [OF ok] obtain my all common
    where g: "gather_keywords get_keywords competitors my_domain = Inr (Some (my, all, common))"
      and bm: "build_matrix all (my_domain # competitors) = Inr (common_keywords_matrix res)"
      and ca: "pd_concat (map snd all) = Inr (all_keywords_df res)"
      and cc: "pd_concat (map snd common) = Inr (common_keywords_df res)"
    by blast
  note gf = gathered_facts [OF g bm]
  have ka: "map fst all = first_seen (my_domain # competitors)" by (rule gf(4))
  have kc: "map fst common = first_seen competitors" by (rule gf(5))
  have da: "distinct (map fst all)" and dc: "distinct (map fst common)"
    by (simp_all only: ka kc distinct_first_seen)
  have ds: "\<exists>D dl. map_of all d = Some D \<and> dataset_of (get_keywords d) dl = Inr D
                 \<and> \<not> empty_df (DataFrame (get_keywords d))"
    if "d \<in> set (my_domain # competitors)" for d
    using gathered_dataset [OF g bm that] .
  have my_al: "aligned my"
    using dataset_of_Inr(2) [OF gather_Some(2) [OF g] gather_Some(1) [OF g]] .
  have in_all: "aligned D \<and> ''keyword'' \<in> set (columns D) \<and> dtype_of D ''keyword'' = Object"
    if "(d, D) \<in> set all" for d D
  proof -
    from that have "d \<in> set (map fst all)" by force
    then have "d \<in> set (my_domain # competitors)"
      by (simp only: ka set_first_seen)
    from ds [OF this] obtain D' dl where D': "map_of all d = Some D'"
      "dataset_of (get_keywords d) dl = Inr D'" "\<not> empty_df (DataFrame (get_keywords d))"
      by blast
    from map_of_distinct_keys [OF da that] D'(1) have "D = D'" by simp
    with dataset_of_Inr(1,2,5) [OF D'(2,3)] show ?thesis
      by (simp add: columns_to_keep_def)
  qed
  have al_all: "list_all aligned (map snd all)"
    using in_all by (auto simp: list_all_iff)
  have kw_all: "''keyword'' \<in> set (columns D) \<and> dtype_of D ''keyword'' = Object"
    if "D \<in> set (map snd all)" for D
    using that in_all by auto
  have in_common: "columns S = columns my \<and> dtypes S = dtypes my \<and> aligned S"
    if "S \<in> set (map snd common)" for S
  proof -
    from that obtain c where cS: "(c, S) \<in> set common" by auto
    then have "c \<in> set (map fst common)" by force
    then have "c \<in> set competitors" by (simp only: kc set_first_seen)
    from gf(2) [OF this] map_of_distinct_keys [OF dc cS]
    obtain C where "S = mask_rows my (isin (col my ''keyword'') (col C ''keyword''))"
      by auto
    then have S: "S = mask_rows my (isin (col my ''keyword'') (col C ''keyword''))" .
    have "aligned S" unfolding S using my_al by (rule aligned_mask_rows)
    moreover have "columns S = columns my \<and> dtypes S = dtypes my"
      by (simp add: S mask_rows_def)
    ultimately show ?thesis by simp
  qed
  have sel: "(\<lambda>(d, D). records D) = records \<circ> snd" for dummy :: "string \<times> frame"
    by (auto simp: fun_eq_iff)
  have selk: "(\<lambda>(d, D). col D ''keyword'') = (\<lambda>D. col D ''keyword'') \<circ> snd"
    for dummy :: "string \<times> frame"
    by (auto simp: fun_eq_iff)
  have ra: "list_all2 (\<lambda>r r'. \<forall>c. kept_or_float64 (r c) (r' c))
              (concat (map (\<lambda>(d, D). records D) all)) (records (all_keywords_df res))"
    using pd_concat_kept [OF ca al_all] by (simp add: sel)
  have rk: "col (all_keywords_df res) ''keyword''
              = concat (map (\<lambda>(d, D). col D ''keyword'') all)"
    using pd_concat_object_column [OF ca kw_all] by (simp add: selk)
  have rc: "records (common_keywords_df res) = concat (map (\<lambda>(c, sub). records sub) common)"
    using pd_concat_same [OF cc in_common] by (simp add: sel)
  have p1: "\<forall>d\<in>set (my_domain # competitors).
               \<exists>D dl. map_of all d = Some D \<and> dataset_of (get_keywords d) dl = Inr D"
    using ds by blast
  have p2: "\<forall>c\<in>set competitors.
               \<exists>C. map_of all c = Some C
                 \<and> map_of common c
                     = Some (mask_rows my (isin (col my ''keyword'') (col C ''keyword'')))"
    using gf(2) by blast
  have p3: "distinct (my_domain # competitors) \<longrightarrow>
               map fst all = my_domain # competitors \<and> map fst common = competitors"
  proof
    assume d: "distinct (my_domain # competitors)"
    then have "distinct competitors" by simp
    with d show "map fst all = my_domain # competitors \<and> map fst common = competitors"
      using first_seen_distinct [of "my_domain # competitors"]
        first_seen_distinct [of competitors]
      by (simp only: ka kc)
  qed
  show ?thesis
    by (rule exI [of _ my], rule exI [of _ all], rule exI [of _ common])
      (intro conjI g ka p1 ra rk kc p2 rc p3)
qed

theorem concatenation_order_witness:
  "content_gap_analysis trio_fetch [''rival.example'', ''outlet.example''] ''shop.example''
     = Inr (Some trio_result)
   \<and> (\<exists>my all common.
           gather_keywords trio_fetch [''rival.example'', ''outlet.example''] ''shop.example''
             = Inr (Some (my, all, common))
         \<and> map fst all = [''shop.example'', ''rival.example'', ''outlet.example'']
         \<and> list_all2 (\<lambda>r r'. \<forall>c. kept_or_float64 (r c) (r' c))
             (concat (map (\<lambda>(d, D). records D) all)) (records (all_keywords_df trio_result))
         \<and> col (all_keywords_df trio_result) ''keyword''
             = concat (map (\<lambda>(d, D). col D ''keyword'') all)
         \<and> map fst common = [''rival.example'', ''outlet.example'']
         \<and> records (common_keywords_df trio_result)
             = concat (map (\<lambda>(c, sub). records sub) common))"
proof -
  have h1: "content_gap_analysis trio_fetch [''rival.example'', ''outlet.example'']
              ''shop.example'' = Inr (Some trio_result)"
    by (rule trio_completes)
  have d: "distinct (''shop.example'' # [''rival.example'', ''outlet.example''])" by simp
  from concatenation_order [OF h1]
  have "\<exists>my all common.
           gather_keywords trio_fetch [''rival.example'', ''outlet.example''] ''shop.example''
             = Inr (Some (my, all, common))
         \<and> map fst all = [''shop.example'', ''rival.example'', ''outlet.example'']
         \<and> list_all2 (\<lambda>r r'. \<forall>c. kept_or_float64 (r c) (r' c))
             (concat (map (\<lambda>(d, D). records D) all)) (records (all_keywords_df trio_result))
         \<and> col (all_keywords_df trio_result) ''keyword''
             = concat (map (\<lambda>(d, D). col D ''keyword'') all)
         \<and> map fst common = [''rival.example'', ''outlet.example'']
         \<and> records (common_keywords_df trio_result)
             = concat (map (\<lambda>(c, sub). records sub) common)"
  proof (elim exE conjE)
    fix my all common
    assume g: "gather_keywords trio_fetch [''rival.example'', ''outlet.example'']
                 ''shop.example'' = Inr (Some (my, all, common))"
      and ra: "list_all2 (\<lambda>r r'. \<forall>c. kept_or_float64 (r c) (r' c))
                 (concat (map (\<lambda>(d, D). records D) all)) (records (all_keywords_df trio_result))"
      and rk: "col (all_keywords_df trio_result) ''keyword''
                 = concat (map (\<lambda>(d, D). col D ''keyword'') all)"
      and rc: "records (common_keywords_df trio_result)
                 = concat (map (\<lambda>(c, sub). records sub) common)"
      and ord: "distinct (''shop.example'' # [''rival.example'', ''outlet.example'']) \<longrightarrow>
                  map fst all = ''shop.example'' # [''rival.example'', ''outlet.example'']
                  \<and> map fst common = [''rival.example'', ''outlet.example'']"
    from ord d
    have ka: "map fst all = [''shop.example'', ''rival.example'', ''outlet.example'']"
      and kc: "map fst common = [''rival.example'', ''outlet.example'']"
      by simp_all
    show ?thesis
      by (rule exI [of _ my], rule exI [of _ all], rule exI [of _ common])
        (intro conjI g ka ra rk kc rc)
  qed
  with h1 show ?thesis by (rule conjI)
qed

text \<open>
  C10. In a completed analysis, let two distinct domains \<open>a\<close> and \<open>b\<close> each have a raw
  item without a keyword to extract. The records of these items have the normalised
  keyword "n/a", "n/a" is in the keyword columns of both datasets, and the matrix entry
  \<open>M[a][b]\<close> is positive. When \<open>a\<close> is the primary domain, every record of the primary
  dataset that comes from an item without a keyword is in the common-keyword subset of
  \<open>b\<close>.
\<close>

theorem missing_keywords_shared:
  assumes ok: "content_gap_analysis get_keywords competitors my_domain = Inr (Some res)"
    and a: "a \<in> set (my_domain # competitors)"
    and b: "b \<in> set (my_domain # competitors)"
    and ab: "a \<noteq> b"
    and ia: "ia \<in> set (get_keywords a)" "lacks_keyword ia"
    and ib: "ib \<in> set (get_keywords b)" "lacks_keyword ib"
  shows "normalised_keyword ia = PStr ''n/a'' \<and> normalised_keyword ib = PStr ''n/a''
       \<and> (\<exists>my all common A B n.
              gather_keywords get_keywords competitors my_domain = Inr (Some (my, all, common))
            \<and> map_of all a = Some A \<and> map_of all b = Some B
            \<and> PStr ''n/a'' \<in> set (col A ''keyword'') \<inter> set (col B ''keyword'')
            \<and> matrix_at (common_keywords_matrix res) a b = Some n \<and> 0 < n
            \<and> (a = my_domain \<longrightarrow>
                 (\<exists>sub. map_of common b = Some sub
                    \<and> (\<forall>k<length (get_keywords my_domain).
                          lacks_keyword (get_keywords my_domain ! k)
                            \<longrightarrow> rows my ! k \<in> set (rows sub)))))"
proof -
  from analysis_Some [OF ok] obtain my all common
    where g: "gather_keywords get_keywords competitors my_domain = Inr (Some (my, all, common))"
      and bm: "build_matrix all (my_domain # competitors) = Inr (common_keywords_matrix res)"
    by blast
  have na: "normalised_keyword ia = PStr ''n/a''" "normalised_keyword ib = PStr ''n/a''"
    using ia(2) ib(2) by (simp_all add: lacks_keyword_normalised)
  from matrix_entries [OF g bm a b] ab obtain A B
    where A: "map_of all a = Some A" and B: "map_of all b = Some B"
      and kA: "col A ''keyword'' = map normalised_keyword (get_keywords a)"
      and kB: "col B ''keyword'' = map normalised_keyword (get_keywords b)"
      and m: "matrix_at (common_keywords_matrix res) a b
                = Some (card (set (col A ''keyword'') \<inter> set (col B ''keyword'')))"
    by auto
  have mem: "PStr ''n/a'' \<in> set (col A ''keyword'') \<inter> set (col B ''keyword'')"
  proof -
    from ia(1) na(1) have "PStr ''n/a'' \<in> normalised_keyword ` set (get_keywords a)" by force
    moreover from ib(1) na(2) have "PStr ''n/a'' \<in> normalised_keyword ` set (get_keywords b)"
      by force
    ultimately show ?thesis by (simp add: kA kB)
  qed
  then have pos: "0 < card (set (col A ''keyword'') \<inter> set (col B ''keyword''))"
    by (auto simp: card_gt_0_iff)
  have prim: "\<exists>sub. map_of common b = Some sub
                \<and> (\<forall>k<length (get_keywords my_domain).
                      lacks_keyword (get_keywords my_domain ! k)
                        \<longrightarrow> rows my ! k \<in> set (rows sub))"
    if am: "a = my_domain"
  proof -
    from b ab am have bc: "b \<in> set competitors" by auto
    from gathered_facts(2) [OF g bm bc] B
    have sub: "map_of common b
                 = Some (mask_rows my (isin (col my ''keyword'') (col B ''keyword'')))"
      by auto
    let ?sub = "mask_rows my (isin (col my ''keyword'') (col B ''keyword''))"
    note my = dataset_of_Inr [OF gather_Some(2) [OF g] gather_Some(1) [OF g]]
    have "rows my ! k \<in> set (rows ?sub)"
      if k: "k < length (get_keywords my_domain)" "lacks_keyword (get_keywords my_domain ! k)"
      for k
    proof -
      from k(1) my(3) have kl: "k < length (rows my)" by simp
      then have "cell (rows my ! k) ''keyword'' = col my ''keyword'' ! k" by (rule cell_row)
      also have "\<dots> = normalised_keyword (get_keywords my_domain ! k)"
        using k(1) by (simp add: my(4))
      also have "\<dots> = PStr ''n/a''" using k(2) by (rule lacks_keyword_normalised)
      finally have "cell (rows my ! k) ''keyword'' \<in> set (col B ''keyword'')"
        using mem by simp
      with kl show ?thesis by (simp add: rows_common)
    qed
    with sub show ?thesis by blast
  qed
  from na g A B mem m pos prim show ?thesis by blast
qed

theorem missing_keywords_shared_witness:
  "content_gap_analysis gappy_fetch [''rival.example''] ''shop.example'' = Inr (Some gappy_result)
   \<and> ''shop.example'' \<in> set (''shop.example'' # [''rival.example''])
   \<and> ''rival.example'' \<in> set (''shop.example'' # [''rival.example''])
   \<and> ''shop.example'' \<noteq> ''rival.example''
   \<and> [(''ranked_serp_element'', PNone)] \<in> set (gappy_fetch ''shop.example'')
   \<and> lacks_keyword [(''ranked_serp_element'', PNone)]
   \<and> [(''keyword_data'', PDict []), (''ranked_serp_element'', PNone)]
        \<in> set (gappy_fetch ''rival.example'')
   \<and> lacks_keyword [(''keyword_data'', PDict []), (''ranked_serp_element'', PNone)]
   \<and> normalised_keyword [(''ranked_serp_element'', PNone)] = PStr ''n/a''
   \<and> (\<exists>n. matrix_at (common_keywords_matrix gappy_result) ''shop.example'' ''rival.example''
              = Some n \<and> 0 < n)"
proof -
  have h1: "content_gap_analysis gappy_fetch [''rival.example''] ''shop.example''
              = Inr (Some gappy_result)"
    by (rule gappy_completes)
  have h2: "''shop.example'' \<in> set (''shop.example'' # [''rival.example''])" by simp
  have h3: "''rival.example'' \<in> set (''shop.example'' # [''rival.example''])" by simp
  have h4: "''shop.example'' \<noteq> ''rival.example''" by simp
  have h5: "[(''ranked_serp_element'', PNone)] \<in> set (gappy_fetch ''shop.example'')"
    by (simp add: gappy_fetch_def)
  have h6: "lacks_keyword [(''ranked_serp_element'', PNone)]" by code_simp
  have h7: "[(''keyword_data'', PDict []), (''ranked_serp_element'', PNone)]
              \<in> set (gappy_fetch ''rival.example'')"
    by (simp add: gappy_fetch_def)
  have h8: "lacks_keyword [(''keyword_data'', PDict []), (''ranked_serp_element'', PNone)]"
    by code_simp
  from missing_keywords_shared [OF h1 h2 h3 h4 h5 h6 h7 h8]
  have "normalised_keyword [(''ranked_serp_element'', PNone)] = PStr ''n/a''
      \<and> (\<exists>n. matrix_at (common_keywords_matrix gappy_result) ''shop.example'' ''rival.example''
                 = Some n \<and> 0 < n)"
    by blast
  with h1 h2 h3 h4 h5 h6 h7 h8 show ?thesis by blast
qed

end
